theory Spec2Isabelle
  imports Main
begin

section \<open>Data model\<close>

text \<open>
  A Go byte slice is a list of 8-bit characters. Errors are values: \<open>ErrorsNew\<close> is an
  error made by \<^verbatim>\<open>errors.New\<close> in the save path, \<open>ErrNotExist\<close> is the error for which
  \<^verbatim>\<open>os.IsNotExist\<close> holds, \<open>SysError\<close> is any other error of the operating system or of a
  library.
\<close>

type_synonym bytes = string

datatype error = ErrorsNew string | ErrNotExist | SysError string

text \<open>
  A function of the save path either returns its \<^verbatim>\<open>error\<close> result (\<open>None\<close> is Go's nil)
  or panics (a failed type assertion on a settings value).
\<close>

datatype outcome = Returned "error option" | Panicked string

text \<open>The values of the settings map \<^verbatim>\<open>map[string]interface{}\<close>.\<close>

datatype setting = VBool bool | VString string | VNumber int

datatype FileFormat = FFUnix | FFDos

record Loc =
  X :: int
  Y :: int

record Line =
  data :: bytes

record BufType =
  Scratch :: bool

record Buffer =
  lines :: "Line list"
  cursors :: "Loc list"
  Path :: string
  AbsPath :: string
  isModified :: bool
  origHash :: bytes
  ModTime :: nat
  Endings :: FileFormat
  Type :: BufType
  Settings :: "string \<rightharpoonup> setting"
  SyntaxDef :: nat

text \<open>
  The world outside the buffer: the files by name (content and modification time), the
  existing directories, the table of open file descriptors (each with the source bytes
  fed to its encoder so far), a clock that advances with every write access, the buffers'
  persisted state, and the trace of signal and process events.
\<close>

record File =
  content :: bytes
  mtime :: nat

record Handle =
  hname :: string
  hsrc :: bytes

datatype event =
    SigNotify nat
  | SigStop nat
  | CmdStart string "string list" bytes
  | CmdWait

record World =
  files :: "string \<rightharpoonup> File"
  dirs :: "string list"
  handles :: "nat \<rightharpoonup> Handle"
  nextfd :: nat
  clock :: nat
  serialized :: "string list"
  chans :: nat
  trace :: "event list"

text \<open>
  An encoding is the function computed by its streaming encoder: the bytes emitted once
  the given source bytes have been fed to it.
\<close>

type_synonym Encoding = "bytes \<Rightarrow> bytes"

record Writer =
  wfd :: nat
  wenc :: Encoding

text \<open>
  What the save path takes from outside this repository: the standard library's path
  functions, the encoding index, the faults the operating system may report, the helper
  process, the hash function, the syntax detection and the global settings.
\<close>

record Env =
  home :: "string option"
  filepath_Abs :: "string \<Rightarrow> string \<times> error option"
  filepath_Dir :: "string \<Rightarrow> string"
  htmlindex_Get :: "string \<Rightarrow> error + Encoding"
  stat_fault :: "World \<Rightarrow> string \<Rightarrow> error option"
  mkdir_fault :: "World \<Rightarrow> string \<Rightarrow> error option"
  open_fault :: "World \<Rightarrow> string \<Rightarrow> error option"
  write_fault :: "World \<Rightarrow> string \<Rightarrow> bytes \<Rightarrow> error option"
  close_fault :: "World \<Rightarrow> string \<Rightarrow> error option"
  serialize_fault :: "Buffer \<Rightarrow> World \<Rightarrow> error option"
  start_fault :: "string \<Rightarrow> string list \<Rightarrow> error option"
  helper :: "string \<Rightarrow> string list \<Rightarrow> bytes \<Rightarrow> (string \<rightharpoonup> File) \<Rightarrow> (string \<rightharpoonup> File) \<times> error option"
  md5 :: "Line list \<Rightarrow> bytes"
  detectSyntax :: "string \<Rightarrow> Line list \<Rightarrow> nat"
  GlobalSettings :: "string \<rightharpoonup> setting"

section \<open>UTF-8 segmentation (Go's \<^verbatim>\<open>unicode/utf8\<close>)\<close>

definition inRange :: "nat \<Rightarrow> nat \<Rightarrow> char \<Rightarrow> bool" where
  "inRange lo hi c = (lo \<le> of_char c \<and> (of_char c :: nat) \<le> hi)"

fun accept :: "(nat \<times> nat) list \<Rightarrow> bytes \<Rightarrow> bool" where
  "accept [] cs = True"
| "accept (r # rs) [] = False"
| "accept (r # rs) (c # cs) = (inRange (fst r) (snd r) c \<and> accept rs cs)"

text \<open>
  The ranges of the bytes that must follow a first byte (the tables \<^verbatim>\<open>first\<close> and
  \<^verbatim>\<open>acceptRanges\<close>); \<open>None\<close> for a byte that cannot start a rune.
\<close>

definition tail_ranges :: "nat \<Rightarrow> (nat \<times> nat) list option" where
  "tail_ranges x =
     (if x < 0x80 then Some []
      else if 0xC2 \<le> x \<and> x \<le> 0xDF then Some [(0x80, 0xBF)]
      else if x = 0xE0 then Some [(0xA0, 0xBF), (0x80, 0xBF)]
      else if 0xE1 \<le> x \<and> x \<le> 0xEC then Some [(0x80, 0xBF), (0x80, 0xBF)]
      else if x = 0xED then Some [(0x80, 0x9F), (0x80, 0xBF)]
      else if 0xEE \<le> x \<and> x \<le> 0xEF then Some [(0x80, 0xBF), (0x80, 0xBF)]
      else if x = 0xF0 then Some [(0x90, 0xBF), (0x80, 0xBF), (0x80, 0xBF)]
      else if 0xF1 \<le> x \<and> x \<le> 0xF3 then Some [(0x80, 0xBF), (0x80, 0xBF), (0x80, 0xBF)]
      else if x = 0xF4 then Some [(0x80, 0x8F), (0x80, 0xBF), (0x80, 0xBF)]
      else None)"

text \<open>The size returned by \<^verbatim>\<open>utf8.DecodeRune\<close>: an invalid or short sequence has width 1.\<close>

definition DecodeRune_size :: "bytes \<Rightarrow> nat" where
  "DecodeRune_size p =
     (case p of
        [] \<Rightarrow> 0
      | c # cs \<Rightarrow>
          (case tail_ranges (of_char c) of
             None \<Rightarrow> 1
           | Some rs \<Rightarrow> if accept rs cs then Suc (length rs) else 1))"

text \<open>The runes of a byte slice, each as the bytes that encode it.\<close>

function runes :: "bytes \<Rightarrow> bytes list" where
  "runes p =
     (if p = [] then []
      else take (DecodeRune_size p) p # runes (drop (DecodeRune_size p) p))"
  by pat_completeness auto
termination
  by (relation "measure length")
    (auto simp: DecodeRune_size_def split: list.splits option.splits)

declare runes.simps [simp del]

definition RuneCount :: "bytes \<Rightarrow> nat" where
  "RuneCount p = length (runes p)"

text \<open>
  \<^verbatim>\<open>unicode.IsSpace\<close> on an encoded rune: tab, line feed, vertical tab, form feed, carriage
  return, space, U+0085, U+00A0, U+1680, U+2000 to U+200A, U+2028, U+2029, U+202F, U+205F
  and U+3000.
\<close>

definition IsSpace :: "bytes \<Rightarrow> bool" where
  "IsSpace r =
     (r \<in> set
       [[CHR 0x09], [CHR 0x0A], [CHR 0x0B], [CHR 0x0C], [CHR 0x0D], [CHR 0x20],
        [CHR 0xC2, CHR 0x85], [CHR 0xC2, CHR 0xA0], [CHR 0xE1, CHR 0x9A, CHR 0x80],
        [CHR 0xE2, CHR 0x80, CHR 0x80], [CHR 0xE2, CHR 0x80, CHR 0x81],
        [CHR 0xE2, CHR 0x80, CHR 0x82], [CHR 0xE2, CHR 0x80, CHR 0x83],
        [CHR 0xE2, CHR 0x80, CHR 0x84], [CHR 0xE2, CHR 0x80, CHR 0x85],
        [CHR 0xE2, CHR 0x80, CHR 0x86], [CHR 0xE2, CHR 0x80, CHR 0x87],
        [CHR 0xE2, CHR 0x80, CHR 0x88], [CHR 0xE2, CHR 0x80, CHR 0x89],
        [CHR 0xE2, CHR 0x80, CHR 0x8A], [CHR 0xE2, CHR 0x80, CHR 0xA8],
        [CHR 0xE2, CHR 0x80, CHR 0xA9], [CHR 0xE2, CHR 0x80, CHR 0xAF],
        [CHR 0xE2, CHR 0x81, CHR 0x9F], [CHR 0xE3, CHR 0x80, CHR 0x80]])"

text \<open>
  \<^verbatim>\<open>bytes.TrimRightFunc(p, unicode.IsSpace)\<close>: the slice without its trailing runes that are
  white space.
\<close>

definition TrimRightFunc_IsSpace :: "bytes \<Rightarrow> bytes" where
  "TrimRightFunc_IsSpace p = concat (rev (dropWhile IsSpace (rev (runes p))))"

definition runePrefix :: "nat \<Rightarrow> bytes \<Rightarrow> bytes" where
  "runePrefix n p = concat (take n (runes p))"

definition runeSuffix :: "nat \<Rightarrow> bytes \<Rightarrow> bytes" where
  "runeSuffix n p = concat (drop n (runes p))"

section \<open>The buffer's text operations\<close>

text \<open>
  Modelled from the spec: \<^verbatim>\<open>UpdateRules\<close>, whose code is not among the sources, re-derives
  the syntax and formatting rules of the buffer; it changes no other field.
\<close>

definition UpdateRules :: "Env \<Rightarrow> Buffer \<Rightarrow> Buffer" where
  "UpdateRules env b = b\<lparr>SyntaxDef := detectSyntax env (Path b) (lines b)\<rparr>"

text \<open>
  Modelled from the spec: \<^verbatim>\<open>Remove\<close>, whose code is not among the sources, deletes the
  runes from \<open>start\<close> up to \<open>fin\<close>; the save path calls it to remove the trailing white
  space of one line in place. A range that is not inside the text changes nothing.
\<close>

definition Remove :: "Loc \<Rightarrow> Loc \<Rightarrow> Buffer \<Rightarrow> Buffer" where
  "Remove start fin b =
     (let ls = lines b in
      if 0 \<le> Y start \<and> Y fin < int (length ls) \<and> 0 \<le> X start \<and>
         (Y start < Y fin \<or> (Y start = Y fin \<and> X start \<le> X fin))
      then
        let l1 = ls ! nat (Y start);
            l2 = ls ! nat (Y fin);
            joined = l1\<lparr>data := runePrefix (nat (X start)) (data l1) @
                                  runeSuffix (nat (X fin)) (data l2)\<rparr>
        in b\<lparr>lines := take (nat (Y start)) ls @ [joined] @ drop (Suc (nat (Y fin))) ls\<rparr>
      else b)"

text \<open>
  Modelled from the spec: \<^verbatim>\<open>RelocateCursors\<close>, whose code is not among the sources, moves
  every cursor whose offset was invalidated to a valid offset.
\<close>

definition Relocate :: "Line list \<Rightarrow> Loc \<Rightarrow> Loc" where
  "Relocate ls c =
     (if ls = [] then c
      else
        let y = max 0 (min (Y c) (int (length ls) - 1));
            n = int (RuneCount (data (ls ! nat y)))
        in \<lparr>X = max 0 (min (X c) n), Y = y\<rparr>)"

definition RelocateCursors :: "Buffer \<Rightarrow> Buffer" where
  "RelocateCursors b = b\<lparr>cursors := map (Relocate (lines b)) (cursors b)\<rparr>"

text \<open>
  Modelled from the spec: \<^verbatim>\<open>End\<close>, \<^verbatim>\<open>RuneAt\<close> and \<^verbatim>\<open>Insert\<close>, whose code is not
  among the sources, serve the step "if the buffer's last character is not a newline,
  append one". Lines hold no terminator, so the character at a position that holds no
  rune of its line is the line break; \<open>End\<close> is the position after the last rune of the
  last line; inserting a text splits the line at the position and at every line feed of
  the text.
\<close>

definition End :: "Buffer \<Rightarrow> Loc" where
  "End b =
     (if lines b = [] then \<lparr>X = 0, Y = - 1\<rparr>
      else \<lparr>X = int (RuneCount (data (last (lines b)))), Y = int (length (lines b)) - 1\<rparr>)"

definition RuneAt :: "Buffer \<Rightarrow> Loc \<Rightarrow> bytes" where
  "RuneAt b loc =
     (if 0 \<le> Y loc \<and> Y loc < int (length (lines b)) \<and> 0 \<le> X loc \<and>
         X loc < int (RuneCount (data (lines b ! nat (Y loc))))
      then runes (data (lines b ! nat (Y loc))) ! nat (X loc)
      else [CHR 0x0A])"

fun splitNL :: "bytes \<Rightarrow> bytes list" where
  "splitNL [] = [[]]"
| "splitNL (c # cs) =
     (if c = CHR 0x0A then [] # splitNL cs
      else (case splitNL cs of [] \<Rightarrow> [[c]] | s # ss \<Rightarrow> (c # s) # ss))"

definition Insert :: "Loc \<Rightarrow> bytes \<Rightarrow> Buffer \<Rightarrow> Buffer" where
  "Insert start text b =
     (let ls = lines b in
      if 0 \<le> Y start \<and> Y start < int (length ls) then
        let l = ls ! nat (Y start);
            pre = runePrefix (nat (X start)) (data l);
            post = runeSuffix (nat (X start)) (data l);
            segs = splitNL text;
            new = (if length segs \<le> 1 then [l\<lparr>data := pre @ concat segs @ post\<rparr>]
                   else l\<lparr>data := pre @ hd segs\<rparr> #
                        map (\<lambda>s. \<lparr>data = s\<rparr>) (butlast (tl segs)) @
                        [\<lparr>data = last segs @ post\<rparr>])
        in b\<lparr>lines := take (nat (Y start)) ls @ new @ drop (Suc (nat (Y start))) ls\<rparr>
      else b)"

text \<open>
  Modelled from the spec: \<^verbatim>\<open>Bytes\<close>, whose code is not among the sources, is the buffer's
  raw byte content: its lines, separated by the line terminator of the buffer.
\<close>

definition eolOf :: "FileFormat \<Rightarrow> bytes" where
  "eolOf f = (if f = FFDos then [CHR 0x0D, CHR 0x0A] else [CHR 0x0A])"

fun joinLines :: "bytes \<Rightarrow> Line list \<Rightarrow> bytes" where
  "joinLines eol [] = []"
| "joinLines eol [l] = data l"
| "joinLines eol (l # ls) = data l @ eol @ joinLines eol ls"

definition Bytes :: "Buffer \<Rightarrow> bytes" where
  "Bytes b = joinLines (eolOf (Endings b)) (lines b)"

text \<open>
  Modelled from the spec: \<^verbatim>\<open>calcHash\<close>, whose code is not among the sources, computes the
  content hash of the buffer and stores it.
\<close>

definition calcHash :: "Env \<Rightarrow> Buffer \<Rightarrow> Buffer" where
  "calcHash env b = b\<lparr>origHash := md5 env (lines b)\<rparr>"

section \<open>The operating system and the helpers of package util\<close>

text \<open>
  Modelled from the spec: \<^verbatim>\<open>ReplaceHome\<close>, whose code is not among the sources, expands a
  leading home-directory shorthand; it fails when the home directory is unknown.
\<close>

definition ReplaceHome :: "Env \<Rightarrow> string \<Rightarrow> string \<times> error option" where
  "ReplaceHome env path =
     (if take 1 path \<noteq> ''~'' then (path, None)
      else (case home env of
              None \<Rightarrow> ([], Some (SysError ''no home directory''))
            | Some h \<Rightarrow> (h @ drop 1 path, None)))"

text \<open>
  Modelled from the spec: \<^verbatim>\<open>GetModTime\<close>, whose code is not among the sources, reads the
  modification timestamp of the named file from the file system. The spec does not say
  which time comes with the error when the file cannot be read; the model gives the
  current time.
\<close>

definition GetModTime :: "string \<Rightarrow> World \<Rightarrow> nat \<times> error option" where
  "GetModTime name w =
     (case files w name of
        Some f \<Rightarrow> (mtime f, None)
      | None \<Rightarrow> (clock w, Some ErrNotExist))"

text \<open>
  Modelled from the spec: \<^verbatim>\<open>Serialize\<close>, whose code is not among the sources, persists
  the buffer-side bookkeeping state and may fail.
\<close>

definition Serialize :: "Env \<Rightarrow> Buffer \<Rightarrow> World \<Rightarrow> World \<times> error option" where
  "Serialize env b w =
     (case serialize_fault env b w of
        Some e \<Rightarrow> (w, Some e)
      | None \<Rightarrow> (w\<lparr>serialized := AbsPath b # serialized w\<rparr>, None))"

text \<open>\<^verbatim>\<open>os.Stat\<close>, as far as the save path reads its result: the error, if any.\<close>

definition os_Stat :: "Env \<Rightarrow> World \<Rightarrow> string \<Rightarrow> error option" where
  "os_Stat env w name =
     (case stat_fault env w name of
        Some e \<Rightarrow> Some e
      | None \<Rightarrow> if name \<in> set (dirs w) \<or> files w name \<noteq> None then None else Some ErrNotExist)"

definition os_IsNotExist :: "error option \<Rightarrow> bool" where
  "os_IsNotExist e = (e = Some ErrNotExist)"

definition os_MkdirAll :: "Env \<Rightarrow> string \<Rightarrow> World \<Rightarrow> World \<times> error option" where
  "os_MkdirAll env name w =
     (case mkdir_fault env w name of
        Some e \<Rightarrow> (w, Some e)
      | None \<Rightarrow> (w\<lparr>dirs := name # dirs w\<rparr>, None))"

text \<open>
  \<^verbatim>\<open>os.OpenFile(name, O_WRONLY|O_CREATE|O_TRUNC, 0644)\<close>: the file exists and is empty
  afterwards, and a new descriptor is open on it.
\<close>

definition os_OpenFile :: "Env \<Rightarrow> string \<Rightarrow> World \<Rightarrow> World \<times> (error + nat)" where
  "os_OpenFile env name w =
     (case open_fault env w name of
        Some e \<Rightarrow> (w, Inl e)
      | None \<Rightarrow>
          (w\<lparr>files := (files w)(name \<mapsto> \<lparr>content = [], mtime = clock w\<rparr>),
             handles := (handles w)(nextfd w \<mapsto> \<lparr>hname = name, hsrc = []\<rparr>),
             nextfd := Suc (nextfd w),
             clock := Suc (clock w)\<rparr>,
           Inr (nextfd w)))"

text \<open>\<^verbatim>\<open>file.Close\<close>: the descriptor is released, also when closing reports an error.\<close>

definition file_Close :: "Env \<Rightarrow> nat \<Rightarrow> World \<Rightarrow> World \<times> error option" where
  "file_Close env fd w =
     (case handles w fd of
        None \<Rightarrow> (w, Some (SysError ''file already closed''))
      | Some h \<Rightarrow> (w\<lparr>handles := (handles w)(fd := None)\<rparr>, close_fault env w (hname h)))"

text \<open>
  \<^verbatim>\<open>Write\<close> on the writer made by \<^verbatim>\<open>transform.NewWriter(file, enc.NewEncoder())\<close>: the
  source bytes are fed to the encoder and the file holds what the encoder has emitted.
  The result is the world, the number of source bytes consumed and the error; a failed
  write is taken to have consumed nothing.
\<close>

definition Writer_Write :: "Env \<Rightarrow> Writer \<Rightarrow> bytes \<Rightarrow> World \<Rightarrow> World \<times> nat \<times> error option" where
  "Writer_Write env wr p w =
     (case handles w (wfd wr) of
        None \<Rightarrow> (w, 0, Some (SysError ''file already closed''))
      | Some h \<Rightarrow>
          (case write_fault env w (hname h) p of
             Some e \<Rightarrow> (w, 0, Some e)
           | None \<Rightarrow>
               (w\<lparr>files := (files w)(hname h \<mapsto>
                           \<lparr>content = wenc wr (hsrc h @ p), mtime = clock w\<rparr>),
                  handles := (handles w)(wfd wr \<mapsto> h\<lparr>hsrc := hsrc h @ p\<rparr>),
                  clock := Suc (clock w)\<rparr>,
                length p, None)))"

section \<open>Saving\<close>

definition LargeFileThreshold :: nat where
  "LargeFileThreshold = 50000"

text \<open>
  \<^verbatim>\<open>overwriteFile\<close>. The callback \<open>fn\<close> is a closure: \<open>'s\<close> holds the variables it has
  captured. The result \<open>err\<close> is a named result, so the deferred close can set it.
\<close>

definition overwriteFile ::
  "Env \<Rightarrow> string \<Rightarrow> Encoding \<Rightarrow> (Writer \<Rightarrow> 's \<times> World \<Rightarrow> ('s \<times> World) \<times> error option) \<Rightarrow>
   's \<times> World \<Rightarrow> ('s \<times> World) \<times> error option" where
  "overwriteFile env name enc fn sw =
     (case os_OpenFile env name (snd sw) of
        (w1, Inl e) \<Rightarrow> ((fst sw, w1), Some e)
      | (w1, Inr fd) \<Rightarrow>
          (case fn \<lparr>wfd = fd, wenc = enc\<rparr> (fst sw, w1) of
             ((s2, w2), err) \<Rightarrow>
               (case file_Close env fd w2 of
                  (w3, e) \<Rightarrow> ((s2, w3), if e \<noteq> None \<and> err = None then e else err))))"

text \<open>A type assertion \<^verbatim>\<open>v.(bool)\<close> or \<^verbatim>\<open>v.(string)\<close>; \<open>None\<close> is the panic.\<close>

definition assertBool :: "setting option \<Rightarrow> bool option" where
  "assertBool v = (case v of Some (VBool x) \<Rightarrow> Some x | _ \<Rightarrow> None)"

definition assertString :: "setting option \<Rightarrow> string option" where
  "assertString v = (case v of Some (VString x) \<Rightarrow> Some x | _ \<Rightarrow> None)"

text \<open>The loop over \<^verbatim>\<open>b.lines\<close> that removes trailing white space (lines 66 to 71).\<close>

fun rmtrailingws :: "nat \<Rightarrow> Line list \<Rightarrow> Buffer \<Rightarrow> Buffer" where
  "rmtrailingws i [] b = b"
| "rmtrailingws i (l # ls) b =
     (let leftover = RuneCount (TrimRightFunc_IsSpace (data l));
          linelen = RuneCount (data l)
      in rmtrailingws (Suc i) ls
           (Remove \<lparr>X = int leftover, Y = int i\<rparr> \<lparr>X = int linelen, Y = int i\<rparr> b))"

text \<open>The trailing newline (lines 76 to 81).\<close>

definition eofnewline :: "Buffer \<Rightarrow> Buffer" where
  "eofnewline b =
     (let e = End b in
      if RuneAt b \<lparr>X = X e - 1, Y = Y e\<rparr> \<noteq> [CHR 0x0A] then Insert e [CHR 0x0A] b else b)"

text \<open>Lines 64 to 81: the text is normalised before anything is written.\<close>

definition SaveAs_normalize :: "Env \<Rightarrow> Buffer \<Rightarrow> Buffer \<times> string option" where
  "SaveAs_normalize env b0 =
     (let b = UpdateRules env b0 in
      case assertBool (Settings b ''rmtrailingws'') of
        None \<Rightarrow> (b, Some ''interface conversion'')
      | Some rm \<Rightarrow>
          (let b1 = (if rm then RelocateCursors (rmtrailingws 0 (lines b) b) else b) in
           case assertBool (Settings b1 ''eofnewline'') of
             None \<Rightarrow> (b1, Some ''interface conversion'')
           | Some nl \<Rightarrow> (if nl then eofnewline b1 else b1, None)))"

text \<open>
  Lines 92 to 107: the parent directories. The result is the outcome when the function
  ends here, and \<open>None\<close> when it goes on.
\<close>

definition SaveAs_parents :: "Env \<Rightarrow> Buffer \<Rightarrow> string \<Rightarrow> World \<Rightarrow> World \<times> outcome option" where
  "SaveAs_parents env b absFilename w =
     (let dirname = filepath_Dir env absFilename in
      if dirname \<noteq> ''.'' \<and> os_IsNotExist (os_Stat env w dirname) then
        (case assertBool (Settings b ''mkparents'') of
           None \<Rightarrow> (w, Some (Panicked ''interface conversion''))
         | Some True \<Rightarrow>
             (case os_MkdirAll env dirname w of
                (w1, Some mkdirallErr) \<Rightarrow> (w1, Some (Returned (Some mkdirallErr)))
              | (w1, None) \<Rightarrow> (w1, None))
         | Some False \<Rightarrow>
             (w, Some (Returned (Some (ErrorsNew
                ''Parent dirs don't exist, enable 'mkparents' for auto creation'')))))
      else (w, None))"

text \<open>The callback of lines 116 to 144; it captures \<open>fileSize\<close>.\<close>

fun writeRest ::
  "Env \<Rightarrow> Writer \<Rightarrow> bytes \<Rightarrow> Line list \<Rightarrow> nat \<times> World \<Rightarrow> (nat \<times> World) \<times> error option" where
  "writeRest env file eol [] sw = (sw, None)"
| "writeRest env file eol (l # ls) sw =
     (case Writer_Write env file eol (snd sw) of
        (w1, _, Some e) \<Rightarrow> ((fst sw, w1), Some e)
      | (w1, _, None) \<Rightarrow>
          (case Writer_Write env file (data l) w1 of
             (w2, _, Some e) \<Rightarrow> ((fst sw, w2), Some e)
           | (w2, _, None) \<Rightarrow>
               writeRest env file eol ls (fst sw + (length eol + length (data l)), w2)))"

definition SaveAs_write ::
  "Env \<Rightarrow> Buffer \<Rightarrow> Writer \<Rightarrow> nat \<times> World \<Rightarrow> (nat \<times> World) \<times> error option" where
  "SaveAs_write env b file sw =
     (if length (lines b) = 0 then (sw, None)
      else
        let eol = (if Endings b = FFDos then [CHR 0x0D, CHR 0x0A] else [CHR 0x0A]) in
        case Writer_Write env file (data (hd (lines b))) (snd sw) of
          (w1, n, Some e) \<Rightarrow> ((n, w1), Some e)
        | (w1, n, None) \<Rightarrow> writeRest env file eol (tl (lines b)) (n, w1))"

text \<open>Lines 150 to 163: the bookkeeping after a write without error.\<close>

definition SaveAs_finish :: "Env \<Rightarrow> string \<Rightarrow> nat \<Rightarrow> Buffer \<Rightarrow> Buffer \<times> outcome" where
  "SaveAs_finish env filename fileSize b =
     (case assertBool (Settings b ''fastdirty'') of
        None \<Rightarrow> (b, Panicked ''interface conversion'')
      | Some fastdirty \<Rightarrow>
          (let b1 = (if \<not> fastdirty then
                       (if fileSize > LargeFileThreshold
                        then b\<lparr>Settings := (Settings b)(''fastdirty'' \<mapsto> VBool True)\<rparr>
                        else calcHash env b)
                     else b)
           in (b1\<lparr>Path := filename, AbsPath := fst (filepath_Abs env filename),
                  isModified := False\<rparr>,
               Returned None)))"

text \<open>Lines 89 to 163: from the expansion of the home directory to the last return.\<close>

definition SaveAs_body :: "Env \<Rightarrow> string \<Rightarrow> Buffer \<times> World \<Rightarrow> (Buffer \<times> World) \<times> outcome" where
  "SaveAs_body env filename bw =
     (let b = fst bw;
          absFilename = fst (ReplaceHome env filename)
      in case SaveAs_parents env b absFilename (snd bw) of
           (w1, Some out) \<Rightarrow> ((b, w1), out)
         | (w1, None) \<Rightarrow>
             (case assertString (Settings b ''encoding'') of
                None \<Rightarrow> ((b, w1), Panicked ''interface conversion'')
              | Some name \<Rightarrow>
                  (case htmlindex_Get env name of
                     Inl err \<Rightarrow> ((b, w1), Returned (Some err))
                   | Inr enc \<Rightarrow>
                       (case overwriteFile env absFilename enc (SaveAs_write env b) (0, w1) of
                          ((fileSize, w2), Some err) \<Rightarrow> ((b, w2), Returned (Some err))
                        | ((fileSize, w2), None) \<Rightarrow>
                            (case SaveAs_finish env filename fileSize b of
                               (b1, out) \<Rightarrow> ((b1, w2), out))))))"

text \<open>
  The deferred function of lines 84 to 87. Its second result is the value it assigns to
  the local variable \<^verbatim>\<open>err\<close>.
\<close>

definition SaveAs_deferred :: "Env \<Rightarrow> string \<Rightarrow> Buffer \<times> World \<Rightarrow> (Buffer \<times> World) \<times> error option" where
  "SaveAs_deferred env filename bw =
     (let b = (fst bw)\<lparr>ModTime := fst (GetModTime filename (snd bw))\<rparr> in
      case Serialize env b (snd bw) of
        (w1, err) \<Rightarrow> ((b, w1), err))"

text \<open>
  \<^verbatim>\<open>SaveAs\<close>. Its result is unnamed: a \<^verbatim>\<open>return\<close> fixes the result before the deferred
  function runs, and what the deferred function assigns to the local variable \<^verbatim>\<open>err\<close>
  is not returned. The deferred function also runs when the body panics.
\<close>

definition SaveAs :: "Env \<Rightarrow> string \<Rightarrow> Buffer \<times> World \<Rightarrow> (Buffer \<times> World) \<times> outcome" where
  "SaveAs env filename bw =
     (if Scratch (Type (fst bw))
      then (bw, Returned (Some (ErrorsNew ''Cannot save scratch buffer'')))
      else
        (case SaveAs_normalize env (fst bw) of
           (b1, Some msg) \<Rightarrow> ((b1, snd bw), Panicked msg)
         | (b1, None) \<Rightarrow>
             (case SaveAs_body env filename (b1, snd bw) of
                (bw2, out) \<Rightarrow>
                  (case SaveAs_deferred env filename bw2 of
                     (bw3, err) \<Rightarrow> (bw3, out)))))"

definition Save :: "Env \<Rightarrow> Buffer \<times> World \<Rightarrow> (Buffer \<times> World) \<times> outcome" where
  "Save env bw = SaveAs env (Path (fst bw)) bw"

text \<open>
  The events of the process's signal handling: the channels that receive the interrupt
  signal after a trace (\<^verbatim>\<open>signal.Notify\<close> registers one, \<^verbatim>\<open>signal.Stop\<close> removes it).
\<close>

fun listening :: "event list \<Rightarrow> nat list" where
  "listening [] = []"
| "listening (SigNotify c # es) = (if c \<in> set (listening es) then listening es else c # listening es)"
| "listening (SigStop c # es) = removeAll c (listening es)"
| "listening (e # es) = listening es"

text \<open>
  \<^verbatim>\<open>cmd.Start\<close> gives an error when the helper cannot be spawned. \<^verbatim>\<open>cmd.Wait\<close> on a command
  that was not started gives the error "exec: not started" of package \<^verbatim>\<open>os/exec\<close>; on a
  started command it gives the files as the helper process leaves them and the error of
  its exit. The goroutine that forwards the interrupt to the helper is part of what the
  helper does.
\<close>

definition cmd_Start :: "Env \<Rightarrow> string \<Rightarrow> string list \<Rightarrow> error option" where
  "cmd_Start env name args = start_fault env name args"

definition cmd_Wait ::
  "Env \<Rightarrow> error option \<Rightarrow> string \<Rightarrow> string list \<Rightarrow> bytes \<Rightarrow> (string \<rightharpoonup> File) \<Rightarrow>
   (string \<rightharpoonup> File) \<times> error option" where
  "cmd_Wait env started name args inp fs =
     (case started of
        Some e \<Rightarrow> (fs, Some (ErrorsNew ''exec: not started''))
      | None \<Rightarrow> helper env name args inp fs)"

text \<open>
  \<^verbatim>\<open>SaveAsWithSudo\<close>. The result of \<^verbatim>\<open>cmd.Start\<close> is not looked at (line 198); the error
  returned is the one of \<^verbatim>\<open>cmd.Wait\<close>. The trace has the newest event first.
\<close>

definition SaveAsWithSudo :: "Env \<Rightarrow> string \<Rightarrow> Buffer \<times> World \<Rightarrow> (Buffer \<times> World) \<times> outcome" where
  "SaveAsWithSudo env filename bw =
     (if Scratch (Type (fst bw))
      then (bw, Returned (Some (ErrorsNew ''Cannot save scratch buffer'')))
      else
        let b = (UpdateRules env (fst bw))\<lparr>Path := filename,
                   AbsPath := fst (filepath_Abs env filename)\<rparr>;
            w = snd bw
        in case assertString (GlobalSettings env ''sucmd'') of
             None \<Rightarrow> ((b, w), Panicked ''interface conversion'')
           | Some sucmd \<Rightarrow>
               (let c = chans w;
                    w1 = w\<lparr>chans := Suc c, trace := SigNotify c # trace w\<rparr>;
                    started = cmd_Start env sucmd [''tee'', filename];
                    ran = cmd_Wait env started sucmd [''tee'', filename] (Bytes b) (files w1);
                    w2 = w1\<lparr>files := fst ran,
                            trace := CmdWait # CmdStart sucmd [''tee'', filename] (Bytes b) # trace w1\<rparr>
                in case snd ran of
                     None \<Rightarrow>
                       (let b2 = b\<lparr>isModified := False,
                                    ModTime := fst (GetModTime filename w2)\<rparr>
                        in case Serialize env b2 w2 of
                             (w3, err) \<Rightarrow> ((b2, w3), Returned err))
                   | Some err \<Rightarrow> ((b, w2), Returned (Some err))))"

definition SaveWithSudo :: "Env \<Rightarrow> Buffer \<times> World \<Rightarrow> (Buffer \<times> World) \<times> outcome" where
  "SaveWithSudo env bw = SaveAsWithSudo env (Path (fst bw)) bw"

section \<open>Vocabulary of the properties\<close>

text \<open>A line without its trailing white space.\<close>

definition trimLine :: "Line \<Rightarrow> Line" where
  "trimLine l = l\<lparr>data := TrimRightFunc_IsSpace (data l)\<rparr>"

text \<open>
  The text ends in a newline: there is no line, or the last line is empty, or the last
  rune of the last line is a line feed.
\<close>

definition endsInNewline :: "Line list \<Rightarrow> bool" where
  "endsInNewline ls = (ls = [] \<or> data (last ls) = [] \<or> last (runes (data (last ls))) = [CHR 0x0A])"

text \<open>The lines after the normalisation asked for by the two settings.\<close>

definition normalized :: "bool \<Rightarrow> bool \<Rightarrow> Line list \<Rightarrow> Line list" where
  "normalized rm nl ls =
     (let ls1 = (if rm then map trimLine ls else ls)
      in if nl \<and> \<not> endsInNewline ls1 then ls1 @ [\<lparr>data = []\<rparr>] else ls1)"

text \<open>The part of the world that writing to a file leaves alone.\<close>

definition untouched :: "World \<Rightarrow> string list \<times> string list \<times> event list \<times> nat" where
  "untouched w = (dirs w, serialized w, trace w, chans w)"

section \<open>A concrete environment, world and buffer\<close>

text \<open>
  The directory of a clean path, as \<^verbatim>\<open>filepath.Dir\<close> gives it, and an environment without
  faults in which the process runs in \<^verbatim>\<open>/cwd\<close>, the home directory is \<^verbatim>\<open>/home/u\<close>, the
  only known encoding is the pass-through \<^verbatim>\<open>utf-8\<close> and the helper writes its input to the
  file named by its last argument.
\<close>

definition demo_Dir :: "string \<Rightarrow> string" where
  "demo_Dir p =
     (let d = rev (dropWhile (\<lambda>c. c \<noteq> CHR ''/'') (rev p))
      in if d = [] then ''.'' else if d = ''/'' then ''/'' else butlast d)"

definition demo_env :: Env where
  "demo_env =
     \<lparr>home = Some ''/home/u'',
      filepath_Abs = (\<lambda>p. (if take 1 p = ''/'' then p else ''/cwd/'' @ p, None)),
      filepath_Dir = demo_Dir,
      htmlindex_Get = (\<lambda>n. if n = ''utf-8'' then Inr (\<lambda>s. s)
                           else Inl (SysError ''htmlindex: invalid encoding name'')),
      stat_fault = (\<lambda>w n. None),
      mkdir_fault = (\<lambda>w n. None),
      open_fault = (\<lambda>w n. None),
      write_fault = (\<lambda>w n p. None),
      close_fault = (\<lambda>w n. None),
      serialize_fault = (\<lambda>b w. None),
      start_fault = (\<lambda>cmd args. None),
      helper = (\<lambda>cmd args inp fs. (fs(last args \<mapsto> \<lparr>content = inp, mtime = 0\<rparr>), None)),
      md5 = (\<lambda>ls. concat (map data ls)),
      detectSyntax = (\<lambda>p ls. 0),
      GlobalSettings = [''sucmd'' \<mapsto> VString ''sudo'']\<rparr>"

definition demo_world :: World where
  "demo_world =
     \<lparr>files = Map.empty, dirs = [''/cwd'', ''/home/u''], handles = Map.empty, nextfd = 3,
      clock = 100, serialized = [], chans = 0, trace = []\<rparr>"

definition demo_buffer :: Buffer where
  "demo_buffer =
     \<lparr>lines = [\<lparr>data = ''hello  ''\<rparr>, \<lparr>data = ''world''\<rparr>],
      cursors = [\<lparr>X = 7, Y = 0\<rparr>],
      Path = ''old.txt'', AbsPath = ''/cwd/old.txt'', isModified = True, origHash = [],
      ModTime = 0, Endings = FFUnix, Type = \<lparr>Scratch = False\<rparr>,
      Settings = [''rmtrailingws'' \<mapsto> VBool True, ''eofnewline'' \<mapsto> VBool True,
                  ''mkparents'' \<mapsto> VBool False, ''encoding'' \<mapsto> VString ''utf-8'',
                  ''fastdirty'' \<mapsto> VBool False],
      SyntaxDef = 0\<rparr>"

text \<open>
  Variants of them: a buffer of one long line without normalisation, environments in
  which the helper exits with an error, cannot be spawned, the disk is full or the
  bookkeeping fails, and buffers with an unknown encoding, with a single line, with a
  last line of blanks, and marked scratch.
\<close>

definition demo_big :: "nat \<Rightarrow> Buffer" where
  "demo_big n =
     demo_buffer\<lparr>lines := [\<lparr>data = replicate n (CHR ''a'')\<rparr>],
       Settings := [''rmtrailingws'' \<mapsto> VBool False, ''eofnewline'' \<mapsto> VBool False,
                    ''mkparents'' \<mapsto> VBool False, ''encoding'' \<mapsto> VString ''utf-8'',
                    ''fastdirty'' \<mapsto> VBool False]\<rparr>"

definition failing_helper_env :: Env where
  "failing_helper_env =
     demo_env\<lparr>helper := (\<lambda>cmd args inp fs. (fs, Some (SysError ''exit status 1'')))\<rparr>"

definition unknown_encoding_buffer :: Buffer where
  "unknown_encoding_buffer =
     demo_buffer\<lparr>Settings := (Settings demo_buffer)(''encoding'' \<mapsto> VString ''klingon'')\<rparr>"

definition disk_full_env :: Env where
  "disk_full_env =
     demo_env\<lparr>write_fault := (\<lambda>w n p. Some (SysError ''no space left on device''))\<rparr>"

definition spawn_fail_env :: Env where
  "spawn_fail_env =
     demo_env\<lparr>start_fault := (\<lambda>cmd args. Some (SysError ''executable file not found in $PATH''))\<rparr>"

definition one_line_buffer :: Buffer where
  "one_line_buffer = demo_buffer\<lparr>lines := [\<lparr>data = ''hello''\<rparr>]\<rparr>"

definition blank_last_line_buffer :: Buffer where
  "blank_last_line_buffer = demo_buffer\<lparr>lines := [\<lparr>data = ''hello''\<rparr>, \<lparr>data = ''  ''\<rparr>]\<rparr>"

definition scratch_buffer :: Buffer where
  "scratch_buffer = demo_buffer\<lparr>Type := \<lparr>Scratch = True\<rparr>\<rparr>"


section \<open>UTF-8 segmentation: lemmas\<close>

lemma DecodeRune_size_pos: "p \<noteq> [] \<Longrightarrow> 0 < DecodeRune_size p"
  by (cases p) (auto simp: DecodeRune_size_def split: option.splits)

lemma DecodeRune_size_le: "DecodeRune_size p \<le> length p"
proof (cases p)
  case Nil then show ?thesis by (simp add: DecodeRune_size_def)
next
  case (Cons c cs)
  have "accept rs xs \<Longrightarrow> length rs \<le> length xs" for rs xs
    by (induction rs xs rule: accept.induct) auto
  then show ?thesis using Cons
    by (auto simp: DecodeRune_size_def split: option.splits)
qed

lemma runes_Nil [simp]: "runes [] = []"
  by (simp add: runes.simps)

lemma runes_Cons: "runes (c # cs) = take (DecodeRune_size (c # cs)) (c # cs) # runes (drop (DecodeRune_size (c # cs)) (c # cs))"
  by (subst runes.simps) simp

lemma runes_eq_Nil [simp]: "runes p = [] \<longleftrightarrow> p = []"
  by (subst runes.simps) simp

lemma concat_runes [simp]: "concat (runes p) = p"
proof (induction p rule: runes.induct)
  case (1 p)
  show ?case
  proof (cases "p = []")
    case True then show ?thesis by simp
  next
    case False
    with 1 show ?thesis by (subst runes.simps) simp
  qed
qed

lemma accept_take: "length rs \<le> n \<Longrightarrow> accept rs (take n xs) = accept rs xs"
proof (induction rs xs arbitrary: n rule: accept.induct)
  case (3 r rs c cs)
  then show ?case by (cases n) auto
qed auto

lemma accept_take_mono: "accept rs (take n xs) \<Longrightarrow> accept rs xs"
proof (induction rs xs arbitrary: n rule: accept.induct)
  case (3 r rs c cs)
  then show ?case by (cases n) auto
qed auto

lemma accept_length: "accept rs xs \<Longrightarrow> length rs \<le> length xs"
  by (induction rs xs rule: accept.induct) auto

lemma DecodeRune_size_take:
  assumes "DecodeRune_size p \<le> n"
  shows "DecodeRune_size (take n p) = DecodeRune_size p"
proof (cases p)
  case Nil then show ?thesis by simp
next
  case (Cons c cs)
  with assms obtain m where n: "n = Suc m"
    by (cases n) (auto simp: DecodeRune_size_def split: option.splits if_splits)
  show ?thesis
  proof (cases "tail_ranges (of_char c)")
    case None
    then show ?thesis using Cons n by (simp add: DecodeRune_size_def)
  next
    case (Some rs)
    show ?thesis
    proof (cases "accept rs cs")
      case True
      with Some Cons assms n have "length rs \<le> m" by (simp add: DecodeRune_size_def)
      then show ?thesis using Some Cons n True by (simp add: DecodeRune_size_def accept_take)
    next
      case False
      then have "\<not> accept rs (take m cs)" using accept_take_mono by blast
      then show ?thesis using Some Cons n False by (simp add: DecodeRune_size_def)
    qed
  qed
qed

lemma runes_take_prefix: "runes (concat (take k (runes p))) = take k (runes p)"
proof (induction p arbitrary: k rule: runes.induct)
  case (1 p)
  show ?case
  proof (cases "p = [] \<or> k = 0")
    case True then show ?thesis by auto
  next
    case False
    then obtain j where k: "k = Suc j" and ne: "p \<noteq> []" by (cases k) auto
    let ?w = "DecodeRune_size p"
    let ?q = "concat (take j (runes (drop ?w p)))"
    have rp: "runes p = take ?w p # runes (drop ?w p)" using ne by (subst runes.simps) simp
    have wpos: "0 < ?w" and wle: "?w \<le> length p"
      using ne by (simp_all add: DecodeRune_size_pos DecodeRune_size_le)
    have "?q @ concat (drop j (runes (drop ?w p))) = drop ?w p"
      by (metis append_take_drop_id concat_append concat_runes)
    then obtain r where qr: "drop ?w p = ?q @ r" by metis
    have pre: "take ?w p @ ?q = take (?w + length ?q) p"
    proof -
      have "p = take ?w p @ ?q @ r" using qr by (metis append_take_drop_id)
      then have "take (?w + length ?q) p = take (?w + length ?q) (take ?w p @ ?q @ r)" by simp
      also have "\<dots> = take ?w p @ ?q" using wle by simp
      finally show ?thesis by simp
    qed
    have sz: "DecodeRune_size (take ?w p @ ?q) = ?w"
      unfolding pre by (rule DecodeRune_size_take) simp
    have nn: "take ?w p @ ?q \<noteq> []" using wpos ne by auto
    have "runes (take ?w p @ ?q) = take ?w p # runes ?q"
      using nn sz wle by (subst runes.simps) simp
    also have "runes ?q = take j (runes (drop ?w p))" using 1 ne by simp
    finally show ?thesis using rp k by simp
  qed
qed

section \<open>Normalisation: lemmas\<close>

lemma Trim_as_take:
  "TrimRightFunc_IsSpace p = concat (take (length (runes p) - length (takeWhile IsSpace (rev (runes p)))) (runes p))"
proof -
  have "rev (dropWhile IsSpace (rev xs)) = take (length xs - length (takeWhile IsSpace (rev xs))) xs" for xs :: "bytes list"
  proof -
    have "rev xs = takeWhile IsSpace (rev xs) @ dropWhile IsSpace (rev xs)" by simp
    then have "xs = rev (dropWhile IsSpace (rev xs)) @ rev (takeWhile IsSpace (rev xs))"
      by (metis rev_append rev_rev_ident)
    then show ?thesis
      by (metis append_eq_conv_conj length_rev length_dropWhile_le diff_diff_cancel length_append add_diff_cancel_right' takeWhile_dropWhile_id)
  qed
  then show ?thesis by (simp add: TrimRightFunc_IsSpace_def)
qed

lemma runes_Trim: "runes (TrimRightFunc_IsSpace p) = rev (dropWhile IsSpace (rev (runes p)))"
proof -
  have "rev (dropWhile IsSpace (rev (runes p))) = take (length (runes p) - length (takeWhile IsSpace (rev (runes p)))) (runes p)"
    using Trim_as_take[of p] 
    by (metis (no_types) TrimRightFunc_IsSpace_def append_eq_conv_conj length_rev rev_append rev_rev_ident takeWhile_dropWhile_id length_append add_diff_cancel_right')
  then show ?thesis
    by (simp add: TrimRightFunc_IsSpace_def runes_take_prefix)
qed

lemma Trim_idem: "TrimRightFunc_IsSpace (TrimRightFunc_IsSpace p) = TrimRightFunc_IsSpace p"
proof -
  have "dropWhile IsSpace (dropWhile IsSpace xs) = dropWhile IsSpace xs" for xs :: "bytes list"
    by (simp add: dropWhile_idem)
  then show ?thesis
    by (simp add: TrimRightFunc_IsSpace_def[of "TrimRightFunc_IsSpace p"] runes_Trim)
       (simp add: TrimRightFunc_IsSpace_def)
qed

lemma runePrefix_Trim:
  "runePrefix (RuneCount (TrimRightFunc_IsSpace p)) p = TrimRightFunc_IsSpace p"
proof -
  let ?k = "length (runes p) - length (takeWhile IsSpace (rev (runes p)))"
  have "RuneCount (TrimRightFunc_IsSpace p) = length (take ?k (runes p))"
    by (simp add: RuneCount_def Trim_as_take runes_take_prefix)
  also have "\<dots> = ?k" by simp
  finally show ?thesis by (simp add: runePrefix_def Trim_as_take[symmetric])
qed

lemma runeSuffix_all [simp]: "runeSuffix (RuneCount p) p = []"
  by (simp add: runeSuffix_def RuneCount_def)

lemma runePrefix_all [simp]: "runePrefix (RuneCount p) p = p"
  by (simp add: runePrefix_def RuneCount_def)

lemma RuneCount_Trim_le: "RuneCount (TrimRightFunc_IsSpace p) \<le> RuneCount p"
  by (simp add: RuneCount_def runes_Trim) (metis length_dropWhile_le length_rev)

lemma Remove_trim:
  assumes "i < length (lines b)"
  shows "Remove \<lparr>X = int (RuneCount (TrimRightFunc_IsSpace (data (lines b ! i)))), Y = int i\<rparr>
                \<lparr>X = int (RuneCount (data (lines b ! i))), Y = int i\<rparr> b
         = b\<lparr>lines := (lines b)[i := trimLine (lines b ! i)]\<rparr>"
  using assms
  by (simp add: Remove_def Let_def runePrefix_Trim RuneCount_Trim_le trimLine_def upd_conv_take_nth_drop)

lemma rmtrailingws_lines:
  "drop i (lines b) = ls \<Longrightarrow>
   rmtrailingws i ls b = b\<lparr>lines := take i (lines b) @ map trimLine ls\<rparr>"
proof (induction ls arbitrary: i b)
  case Nil
  then show ?case by simp
next
  case (Cons l ls)
  from Cons.prems have i: "i < length (lines b)"
    by (cases "i < length (lines b)") auto
  from Cons.prems Cons_nth_drop_Suc[OF i] have l: "lines b ! i = l" and d: "drop (Suc i) (lines b) = ls"
    by auto
  let ?b = "b\<lparr>lines := (lines b)[i := trimLine l]\<rparr>"
  have "rmtrailingws i (l # ls) b = rmtrailingws (Suc i) ls ?b"
    using Remove_trim[OF i] l by (simp add: Let_def)
  also have "\<dots> = ?b\<lparr>lines := take (Suc i) (lines ?b) @ map trimLine ls\<rparr>"
    using d by (intro Cons.IH) simp
  also have "take (Suc i) (lines ?b) = take i (lines b) @ [trimLine l]"
    using i by (simp add: take_Suc_conv_app_nth)
  finally show ?case by simp
qed

lemma rmtrailingws_all: "lines b = ls \<Longrightarrow> rmtrailingws 0 ls b = b\<lparr>lines := map trimLine ls\<rparr>"
  using rmtrailingws_lines[of 0 b ls] by simp

lemma trimLine_idem [simp]: "trimLine (trimLine l) = trimLine l"
  by (simp add: trimLine_def Trim_idem)

lemma RuneAt_before_End:
  "RuneAt b \<lparr>X = X (End b) - 1, Y = Y (End b)\<rparr> = [CHR 0x0A] \<longleftrightarrow> endsInNewline (lines b)"
proof (cases "lines b = []")
  case True
  then show ?thesis by (simp add: RuneAt_def End_def endsInNewline_def)
next
  case False
  let ?d = "data (last (lines b))"
  have nth: "lines b ! nat (int (length (lines b)) - 1) = last (lines b)"
    using False by (simp add: last_conv_nth nat_diff_distrib')
  show ?thesis
  proof (cases "?d = []")
    case True
    then show ?thesis using False nth
      by (simp add: RuneAt_def End_def endsInNewline_def RuneCount_def)
  next
    case d: False
    then have "runes ?d \<noteq> []" by simp
    then have "runes ?d ! nat (int (length (runes ?d)) - 1) = last (runes ?d)"
      by (simp add: last_conv_nth nat_diff_distrib')
    then show ?thesis using False nth d
      by (simp add: RuneAt_def End_def endsInNewline_def RuneCount_def)
  qed
qed

lemma Insert_newline_End:
  assumes "lines b \<noteq> []"
  shows "Insert (End b) [CHR 0x0A] b = b\<lparr>lines := lines b @ [\<lparr>data = []\<rparr>]\<rparr>"
proof -
  let ?n = "length (lines b)"
  have nth: "lines b ! nat (int ?n - 1) = last (lines b)"
    using assms by (simp add: last_conv_nth nat_diff_distrib')
  have tk: "take (nat (int ?n - 1)) (lines b) @ [last (lines b)] = lines b"
    using assms by (metis append_butlast_last_id butlast_conv_take nat_diff_distrib' nat_int nat_one_as_int of_nat_0_le_iff zero_le_one)
  have dr: "drop (Suc (nat (int ?n - 1))) (lines b) = []"
    using assms by (simp add: nat_diff_distrib')
  show ?thesis
    using assms nth dr tk
    by (simp add: Insert_def End_def Let_def)
qed

lemma eofnewline_eq:
  "eofnewline b = (if endsInNewline (lines b) then b else b\<lparr>lines := lines b @ [\<lparr>data = []\<rparr>]\<rparr>)"
proof (cases "endsInNewline (lines b)")
  case True
  then show ?thesis using RuneAt_before_End[of b] by (simp add: eofnewline_def Let_def)
next
  case False
  then have "lines b \<noteq> []" by (auto simp: endsInNewline_def)
  then show ?thesis using False RuneAt_before_End[of b] Insert_newline_End[of b]
    by (simp add: eofnewline_def Let_def)
qed

lemma endsInNewline_eofnewline: "endsInNewline (lines (eofnewline b))"
  by (simp add: eofnewline_eq) (simp add: endsInNewline_def)

lemma eofnewline_idem: "eofnewline (eofnewline b) = eofnewline b"
  using endsInNewline_eofnewline[of b] by (subst eofnewline_eq) simp

section \<open>Writing: lemmas\<close>

lemma Writer_Write_ok:
  assumes "handles w fd = Some h"
    and "Writer_Write env \<lparr>wfd = fd, wenc = enc\<rparr> p w = (w', n, None)"
  shows "n = length p"
    and "handles w' fd = Some (h\<lparr>hsrc := hsrc h @ p\<rparr>)"
    and "files w' (hname h) = Some \<lparr>content = enc (hsrc h @ p), mtime = clock w\<rparr>"
    and "clock w' = Suc (clock w)"
  using assms by (auto simp: Writer_Write_def split: option.splits)

lemma writeRest_ok:
  assumes "handles w fd = Some h"
    and "writeRest env \<lparr>wfd = fd, wenc = enc\<rparr> eol ls (n, w) = ((n', w'), None)"
    and "files w (hname h) = Some \<lparr>content = enc (hsrc h), mtime = t\<rparr>"
    and "Suc t = clock w"
  shows "n' = n + length (concat (map (\<lambda>l. eol @ data l) ls)) \<and>
         handles w' fd = Some (h\<lparr>hsrc := hsrc h @ concat (map (\<lambda>l. eol @ data l) ls)\<rparr>) \<and>
         (\<exists>t'. files w' (hname h) =
                 Some \<lparr>content = enc (hsrc h @ concat (map (\<lambda>l. eol @ data l) ls)), mtime = t'\<rparr> \<and>
               Suc t' = clock w')"
  using assms
proof (induction ls arbitrary: n w h t)
  case Nil
  then show ?case by simp
next
  case (Cons l ls)
  let ?file = "\<lparr>wfd = fd, wenc = enc\<rparr>"
  from Cons.prems(2) obtain w1 k1 where
    w1: "Writer_Write env ?file eol w = (w1, k1, None)"
    by (auto split: prod.splits option.splits)
  note a = Writer_Write_ok[OF Cons.prems(1) w1]
  from Cons.prems(2) w1 obtain w2 k2 where
    w2: "Writer_Write env ?file (data l) w1 = (w2, k2, None)"
    by (auto split: prod.splits option.splits)
  have a2': "handles w1 fd = Some (h\<lparr>hsrc := hsrc h @ eol\<rparr>)" by (rule a(2))
  note b = Writer_Write_ok[OF a2' w2]
  from Cons.prems(2) w1 w2 have rest:
    "writeRest env ?file eol ls (n + (length eol + length (data l)), w2) = ((n', w'), None)"
    by simp
  have h2: "handles w2 fd = Some (h\<lparr>hsrc := hsrc h @ eol @ data l\<rparr>)"
    using b(2) by simp
  have f2: "files w2 (hname (h\<lparr>hsrc := hsrc h @ eol @ data l\<rparr>)) =
            Some \<lparr>content = enc (hsrc (h\<lparr>hsrc := hsrc h @ eol @ data l\<rparr>)), mtime = clock w1\<rparr>"
    using b(3) by simp
  have c2: "Suc (clock w1) = clock w2" using b(4) by simp
  from Cons.IH[OF h2 rest f2 c2] show ?case by simp
qed

lemma Writer_Write_untouched: "untouched (fst (Writer_Write env wr p w)) = untouched w"
  by (simp add: Writer_Write_def untouched_def split: option.splits)

lemma writeRest_untouched: "untouched (snd (fst (writeRest env wr eol ls sw))) = untouched (snd sw)"
proof (induction ls arbitrary: sw)
  case Nil
  then show ?case by simp
next
  case (Cons l ls)
  obtain w1 k1 e1 where w1: "Writer_Write env wr eol (snd sw) = (w1, k1, e1)"
    by (cases "Writer_Write env wr eol (snd sw)") auto
  obtain w2 k2 e2 where w2: "Writer_Write env wr (data l) w1 = (w2, k2, e2)"
    by (cases "Writer_Write env wr (data l) w1") auto
  have u1: "untouched w1 = untouched (snd sw)"
    using Writer_Write_untouched[of env wr eol "snd sw"] w1 by simp
  have u2: "untouched w2 = untouched w1"
    using Writer_Write_untouched[of env wr "data l" w1] w2 by simp
  show ?case
    using w1 w2 u1 u2 Cons.IH[of "(fst sw + (length eol + length (data l)), w2)"]
    by (cases e1; cases e2) simp_all
qed

lemma SaveAs_write_untouched: "untouched (snd (fst (SaveAs_write env b wr sw))) = untouched (snd sw)"
proof (cases "lines b = []")
  case True
  then show ?thesis by (simp add: SaveAs_write_def)
next
  case False
  obtain w1 k1 e1 where w1: "Writer_Write env wr (data (hd (lines b))) (snd sw) = (w1, k1, e1)"
    by (cases "Writer_Write env wr (data (hd (lines b))) (snd sw)") auto
  have u1: "untouched w1 = untouched (snd sw)"
    using Writer_Write_untouched[of env wr "data (hd (lines b))" "snd sw"] w1 by simp
  show ?thesis
    using False w1 u1 writeRest_untouched[of env wr _ "tl (lines b)" "(k1, w1)"]
    by (cases e1) (simp_all add: SaveAs_write_def)
qed

lemma joinLines_Cons: "joinLines eol (l # ls) = data l @ concat (map (\<lambda>l. eol @ data l) ls)"
  by (induction ls arbitrary: l) auto

lemma SaveAs_write_ok:
  assumes "handles w fd = Some \<lparr>hname = nm, hsrc = []\<rparr>"
    and "SaveAs_write env b \<lparr>wfd = fd, wenc = enc\<rparr> (n, w) = ((n', w'), None)"
    and "lines b \<noteq> []"
  shows "n' = length (joinLines (eolOf (Endings b)) (lines b)) \<and>
         handles w' fd = Some \<lparr>hname = nm, hsrc = joinLines (eolOf (Endings b)) (lines b)\<rparr> \<and>
         (\<exists>t'. files w' nm =
                 Some \<lparr>content = enc (joinLines (eolOf (Endings b)) (lines b)), mtime = t'\<rparr> \<and>
               Suc t' = clock w')"
proof -
  let ?file = "\<lparr>wfd = fd, wenc = enc\<rparr>"
  obtain l ls where ls: "lines b = l # ls" using assms(3) by (cases "lines b") auto
  from assms(2) ls obtain w1 k1 where
    w1: "Writer_Write env ?file (data l) w = (w1, k1, None)"
    by (auto simp: SaveAs_write_def split: prod.splits option.splits)
  note a = Writer_Write_ok[OF assms(1) w1]
  from assms(2) ls w1 have rest:
    "writeRest env ?file (eolOf (Endings b)) ls (k1, w1) = ((n', w'), None)"
    by (simp add: SaveAs_write_def eolOf_def)
  have h1: "handles w1 fd = Some \<lparr>hname = nm, hsrc = data l\<rparr>" using a(2) by simp
  have f1: "files w1 (hname \<lparr>hname = nm, hsrc = data l\<rparr>) =
              Some \<lparr>content = enc (hsrc \<lparr>hname = nm, hsrc = data l\<rparr>), mtime = clock w\<rparr>"
    using a(3) by simp
  have c1: "Suc (clock w) = clock w1" using a(4) by simp
  from writeRest_ok[OF h1 rest f1 c1] a(1) ls show ?thesis
    by (simp add: joinLines_Cons)
qed

lemma SaveAs_write_empty:
  "lines b = [] \<Longrightarrow> SaveAs_write env b file sw = (sw, None)"
  by (simp add: SaveAs_write_def)

text \<open>overwriteFile with the callback of SaveAs, on success.\<close>

lemma overwriteFile_SaveAs_ok:
  assumes "overwriteFile env nm enc (SaveAs_write env b) (n, w) = ((n', w'), None)"
  shows "(if lines b = [] then n' = n else n' = length (joinLines (eolOf (Endings b)) (lines b))) \<and>
         (\<exists>t'. files w' nm =
            Some \<lparr>content = (if lines b = [] then [] else enc (joinLines (eolOf (Endings b)) (lines b))),
                  mtime = t'\<rparr> \<and> Suc t' = clock w') \<and>
         dirs w' = dirs w \<and> serialized w' = serialized w \<and> trace w' = trace w \<and> chans w' = chans w"
proof -
  from assms obtain w1 fd where op: "os_OpenFile env nm w = (w1, Inr fd)"
    by (auto simp: overwriteFile_def split: prod.splits sum.splits)
  then have w1: "w1 = w\<lparr>files := (files w)(nm \<mapsto> \<lparr>content = [], mtime = clock w\<rparr>),
             handles := (handles w)(nextfd w \<mapsto> \<lparr>hname = nm, hsrc = []\<rparr>),
             nextfd := Suc (nextfd w), clock := Suc (clock w)\<rparr>" and fd: "fd = nextfd w"
    by (auto simp: os_OpenFile_def split: option.splits)
  from assms op obtain n2 w2 err where
    fn: "SaveAs_write env b \<lparr>wfd = fd, wenc = enc\<rparr> (n, w1) = ((n2, w2), err)"
    by (cases "SaveAs_write env b \<lparr>wfd = fd, wenc = enc\<rparr> (n, w1)") auto
  from assms op fn obtain e where cl: "file_Close env fd w2 = (w', e)" and n2: "n2 = n'"
    and errs: "err = None" "e = None"
    by (auto simp: overwriteFile_def split: prod.splits if_splits)
  have h1: "handles w1 fd = Some \<lparr>hname = nm, hsrc = []\<rparr>" using w1 fd by simp
  have fr: "files w' = files w2 \<and> clock w' = clock w2 \<and> dirs w' = dirs w2 \<and>
            serialized w' = serialized w2 \<and> trace w' = trace w2 \<and> chans w' = chans w2"
    using cl by (auto simp: file_Close_def split: option.splits)
  show ?thesis
  proof (cases "lines b = []")
    case True
    with fn have "w2 = w1" "n2 = n" by (simp_all add: SaveAs_write_empty)
    then show ?thesis using True fr w1 n2 by simp
  next
    case False
    have frw: "dirs w2 = dirs w1 \<and> serialized w2 = serialized w1 \<and> trace w2 = trace w1 \<and> chans w2 = chans w1"
      using SaveAs_write_untouched[of env b "\<lparr>wfd = fd, wenc = enc\<rparr>" "(n, w1)"] fn
      by (simp add: untouched_def)
    from SaveAs_write_ok[OF h1 fn[unfolded errs] False] False fr n2 frw w1 show ?thesis by simp
  qed
qed

section \<open>SaveAs: lemmas\<close>

lemma SaveAs_normalize_ok:
  assumes "assertBool (Settings b ''rmtrailingws'') = Some rm"
    and "assertBool (Settings b ''eofnewline'') = Some nl"
  shows "SaveAs_normalize env b =
           (b\<lparr>lines := normalized rm nl (lines b),
              cursors := (if rm then map (Relocate (map trimLine (lines b))) (cursors b) else cursors b),
              SyntaxDef := detectSyntax env (Path b) (lines b)\<rparr>, None)"
  using assms
  by (simp add: SaveAs_normalize_def UpdateRules_def rmtrailingws_all RelocateCursors_def
      eofnewline_eq normalized_def Let_def)

lemma trim_step_Settings:
  "Settings (RelocateCursors (rmtrailingws 0 (lines b) b)) = Settings b"
  by (simp add: rmtrailingws_all RelocateCursors_def)

lemma SaveAs_normalize_panic:
  assumes "snd (SaveAs_normalize env b) = None"
  shows "\<exists>rm nl. assertBool (Settings b ''rmtrailingws'') = Some rm \<and>
                 assertBool (Settings b ''eofnewline'') = Some nl"
proof -
  let ?u = "UpdateRules env b"
  have su: "Settings ?u = Settings b" by (simp add: UpdateRules_def)
  from assms obtain rm where rm: "assertBool (Settings b ''rmtrailingws'') = Some rm"
    by (cases "assertBool (Settings b ''rmtrailingws'')")
       (auto simp: SaveAs_normalize_def su Let_def)
  let ?b1 = "if rm then RelocateCursors (rmtrailingws 0 (lines ?u) ?u) else ?u"
  have s1: "Settings ?b1 = Settings b" using su trim_step_Settings[of ?u] by simp
  from assms rm have "snd (case assertBool (Settings ?b1 ''eofnewline'') of
             None \<Rightarrow> (?b1, Some ''interface conversion'')
           | Some nl \<Rightarrow> (if nl then eofnewline ?b1 else ?b1, None)) = None"
    by (simp add: SaveAs_normalize_def su Let_def)
  then obtain nl where "assertBool (Settings b ''eofnewline'') = Some nl"
    unfolding s1 by (cases "assertBool (Settings b ''eofnewline'')") auto
  with rm show ?thesis by blast
qed

lemma SaveAs_finish_fields:
  "lines (fst (SaveAs_finish env filename n b)) = lines b"
  "Endings (fst (SaveAs_finish env filename n b)) = Endings b"
  "Type (fst (SaveAs_finish env filename n b)) = Type b"
  by (auto simp: SaveAs_finish_def calcHash_def Let_def split: option.splits)

lemma SaveAs_deferred_eq:
  "SaveAs_deferred env filename (b, w) =
     ((b\<lparr>ModTime := fst (GetModTime filename w)\<rparr>,
       fst (Serialize env (b\<lparr>ModTime := fst (GetModTime filename w)\<rparr>) w)),
      snd (Serialize env (b\<lparr>ModTime := fst (GetModTime filename w)\<rparr>) w))"
  by (simp add: SaveAs_deferred_def Let_def split: prod.splits)

lemma Serialize_files [simp]: "files (fst (Serialize env b w)) = files w"
  by (simp add: Serialize_def split: option.splits)

lemma SaveAs_parents_not_ok: "SaveAs_parents env b a w \<noteq> (w1, Some (Returned None))"
  by (auto simp: SaveAs_parents_def Let_def split: option.splits bool.splits prod.splits)

text \<open>What a successful SaveAs has done.\<close>

lemma SaveAs_success:
  assumes "SaveAs env filename (b, w) = ((b', w'), Returned None)"
  obtains bn w1 name enc n w2 bf where
    "\<not> Scratch (Type b)"
    "SaveAs_normalize env b = (bn, None)"
    "SaveAs_parents env bn (fst (ReplaceHome env filename)) w = (w1, None)"
    "assertString (Settings bn ''encoding'') = Some name"
    "htmlindex_Get env name = Inr enc"
    "overwriteFile env (fst (ReplaceHome env filename)) enc (SaveAs_write env bn) (0, w1) = ((n, w2), None)"
    "SaveAs_finish env filename n bn = (bf, Returned None)"
    "b' = bf\<lparr>ModTime := fst (GetModTime filename w2)\<rparr>"
    "w' = fst (Serialize env b' w2)"
proof -
  from assms have ns: "\<not> Scratch (Type b)" by (auto simp: SaveAs_def split: if_splits)
  obtain bn pn where nz: "SaveAs_normalize env b = (bn, pn)" by (cases "SaveAs_normalize env b") auto
  with assms ns have pn: "pn = None" by (cases pn) (auto simp: SaveAs_def)
  obtain b2 w2' out where body: "SaveAs_body env filename (bn, w) = ((b2, w2'), out)"
    by (cases "SaveAs_body env filename (bn, w)") auto
  from assms ns nz pn body have out: "out = Returned None"
    and b': "b' = b2\<lparr>ModTime := fst (GetModTime filename w2')\<rparr>"
    and w': "w' = fst (Serialize env b' w2')"
    by (auto simp: SaveAs_def SaveAs_deferred_eq)
  let ?abs = "fst (ReplaceHome env filename)"
  obtain w1 po where par: "SaveAs_parents env bn ?abs w = (w1, po)"
    by (cases "SaveAs_parents env bn ?abs w") auto
  from body out par have po: "po = None"
    using SaveAs_parents_not_ok[of env bn ?abs w w1]
    by (cases po) (auto simp: SaveAs_body_def Let_def)
  from body out par po obtain name where name: "assertString (Settings bn ''encoding'') = Some name"
    by (cases "assertString (Settings bn ''encoding'')") (auto simp: SaveAs_body_def Let_def)
  from body out par po name obtain enc where enc: "htmlindex_Get env name = Inr enc"
    by (cases "htmlindex_Get env name") (auto simp: SaveAs_body_def Let_def)
  obtain n w2 oe where ow: "overwriteFile env ?abs enc (SaveAs_write env bn) (0, w1) = ((n, w2), oe)"
    by (cases "overwriteFile env ?abs enc (SaveAs_write env bn) (0, w1)") auto
  from body out par po name enc ow have oe: "oe = None"
    by (cases oe) (auto simp: SaveAs_body_def Let_def)
  from body out par po name enc ow oe have
    fin: "SaveAs_finish env filename n bn = (b2, Returned None)" and w2: "w2' = w2"
    by (auto simp: SaveAs_body_def Let_def split: prod.splits)
  show ?thesis
    using that[OF ns nz[unfolded pn] par[unfolded po] name enc ow[unfolded oe] fin] b' w' w2 by simp
qed

lemma SaveAs_content:
  assumes "SaveAs env filename (b, w) = ((b', w'), Returned None)"
  shows "\<exists>rm nl name enc t.
           assertBool (Settings b ''rmtrailingws'') = Some rm \<and>
           assertBool (Settings b ''eofnewline'') = Some nl \<and>
           Settings b ''encoding'' = Some (VString name) \<and>
           htmlindex_Get env name = Inr enc \<and>
           lines b' = normalized rm nl (lines b) \<and>
           Endings b' = Endings b \<and>
           files w' (fst (ReplaceHome env filename)) =
             Some \<lparr>content = (if lines b' = [] then []
                              else enc (joinLines (eolOf (Endings b')) (lines b'))),
                   mtime = t\<rparr> \<and>
           Suc t = clock w'"
proof -
  from assms obtain bn w1 name enc n w2 bf where
    nz: "SaveAs_normalize env b = (bn, None)"
    and name: "assertString (Settings bn ''encoding'') = Some name"
    and enc: "htmlindex_Get env name = Inr enc"
    and ow: "overwriteFile env (fst (ReplaceHome env filename)) enc (SaveAs_write env bn) (0, w1) = ((n, w2), None)"
    and fin: "SaveAs_finish env filename n bn = (bf, Returned None)"
    and b': "b' = bf\<lparr>ModTime := fst (GetModTime filename w2)\<rparr>"
    and w': "w' = fst (Serialize env b' w2)"
    by (rule SaveAs_success)
  from nz SaveAs_normalize_panic[of env b] obtain rm nl where
    rm: "assertBool (Settings b ''rmtrailingws'') = Some rm"
    and nl: "assertBool (Settings b ''eofnewline'') = Some nl" by auto
  from SaveAs_normalize_ok[OF rm nl, of env] nz have
    bn: "lines bn = normalized rm nl (lines b)" "Endings bn = Endings b" "Settings bn = Settings b"
    by auto
  from fin SaveAs_finish_fields[of env filename n bn] b' have
    lb: "lines b' = lines bn" "Endings b' = Endings bn" by auto
  have clk: "clock w' = clock w2" using w' by (simp add: Serialize_def split: option.splits)
  from name bn have nm: "Settings b ''encoding'' = Some (VString name)"
    by (auto simp: assertString_def split: option.splits setting.splits)
  from overwriteFile_SaveAs_ok[OF ow] lb bn w' clk rm nl nm enc show ?thesis
    by auto
qed

lemmas demo_defs = demo_env_def demo_world_def demo_buffer_def demo_Dir_def

lemmas save_defs = SaveAs_def SaveAs_normalize_def SaveAs_body_def SaveAs_parents_def
  SaveAs_finish_def SaveAs_deferred_def SaveAs_write_def overwriteFile_def os_OpenFile_def
  file_Close_def Writer_Write_def os_Stat_def os_IsNotExist_def os_MkdirAll_def Serialize_def
  GetModTime_def ReplaceHome_def UpdateRules_def assertBool_def assertString_def calcHash_def
  LargeFileThreshold_def Remove_def RelocateCursors_def Relocate_def eofnewline_def End_def
  RuneAt_def Insert_def RuneCount_def TrimRightFunc_IsSpace_def IsSpace_def runePrefix_def
  runeSuffix_def runes_Cons DecodeRune_size_def tail_ranges_def inRange_def Let_def

lemma demo_SaveAs_outcome:
  "snd (SaveAs demo_env ''a.txt'' (demo_buffer, demo_world)) = Returned None"
  by (simp add: demo_defs save_defs)

lemma demo_SaveAs_lines:
  "lines (fst (fst (SaveAs demo_env ''a.txt'' (demo_buffer, demo_world)))) =
     [\<lparr>data = ''hello''\<rparr>, \<lparr>data = ''world''\<rparr>, \<lparr>data = []\<rparr>]"
  by (simp add: demo_defs save_defs)

text \<open>
  C1, as the code has it. After a SaveAs without error the file holds, through the
  encoder, the raw bytes of line 0 followed, for every later line, by the line terminator
  of the buffer and the raw bytes of that line, and no terminator after the last line;
  without lines the file is empty. The lines are those the buffer has after the
  normalisation that its settings ask for: trimmed when rmtrailingws is on, with one
  empty line more when eofnewline is on and the text does not end in a newline.
\<close>

theorem SaveAs_serialization:
  assumes "SaveAs env filename (b, w) = ((b', w'), Returned None)"
  shows "\<exists>name enc f.
           Settings b ''encoding'' = Some (VString name) \<and>
           htmlindex_Get env name = Inr enc \<and>
           files w' (fst (ReplaceHome env filename)) = Some f \<and>
           content f =
             (case lines b' of
                [] \<Rightarrow> []
              | l0 # rest \<Rightarrow>
                  enc (data l0 @
                       concat (map (\<lambda>l. (if Endings b = FFDos then [CHR 0x0D, CHR 0x0A]
                                            else [CHR 0x0A]) @ data l) rest))) \<and>
           (\<exists>rm nl. assertBool (Settings b ''rmtrailingws'') = Some rm \<and>
                    assertBool (Settings b ''eofnewline'') = Some nl \<and>
                    lines b' = normalized rm nl (lines b))"
proof -
  from SaveAs_content[OF assms] obtain rm nl name enc t where
    norm: "assertBool (Settings b ''rmtrailingws'') = Some rm"
       "assertBool (Settings b ''eofnewline'') = Some nl"
       "lines b' = normalized rm nl (lines b)"
    and *: "Settings b ''encoding'' = Some (VString name)" "htmlindex_Get env name = Inr enc"
       "Endings b' = Endings b"
       "files w' (fst (ReplaceHome env filename)) =
             Some \<lparr>content = (if lines b' = [] then []
                              else enc (joinLines (eolOf (Endings b')) (lines b'))),
                   mtime = t\<rparr>"
    by blast
  have "(if lines b' = [] then [] else enc (joinLines (eolOf (Endings b')) (lines b'))) =
          (case lines b' of
                [] \<Rightarrow> []
              | l0 # rest \<Rightarrow>
                  enc (data l0 @
                       concat (map (\<lambda>l. (if Endings b = FFDos then [CHR 0x0D, CHR 0x0A]
                                            else [CHR 0x0A]) @ data l) rest)))"
    using *(3) by (cases "lines b'") (simp_all add: joinLines_Cons eolOf_def del: joinLines.simps)
  with * norm show ?thesis by auto
qed

theorem SaveAs_serialization_witness:
  "\<exists>f. files (snd (fst (SaveAs demo_env ''a.txt'' (demo_buffer, demo_world)))) ''a.txt'' = Some f \<and>
       content f = ''hello'' @ [CHR 0x0A] @ ''world'' @ [CHR 0x0A]"
proof -
  let ?r = "SaveAs demo_env ''a.txt'' (demo_buffer, demo_world)"
  have ok: "?r = ((fst (fst ?r), snd (fst ?r)), Returned None)"
    using demo_SaveAs_outcome by (simp add: prod_eq_iff)
  from SaveAs_serialization[OF ok] obtain name enc f where
    n: "Settings demo_buffer ''encoding'' = Some (VString name)"
    and e: "htmlindex_Get demo_env name = Inr enc"
    and f: "files (snd (fst ?r)) (fst (ReplaceHome demo_env ''a.txt'')) = Some f"
    and c: "content f =
             (case lines (fst (fst ?r)) of
                [] \<Rightarrow> []
              | l0 # rest \<Rightarrow>
                  enc (data l0 @
                       concat (map (\<lambda>l. (if Endings demo_buffer = FFDos then [CHR 0x0D, CHR 0x0A]
                                            else [CHR 0x0A]) @ data l) rest)))"
    by blast
  from n have "name = ''utf-8''" by (simp add: demo_buffer_def)
  with e have "enc = (\<lambda>s. s)" by (simp add: demo_env_def)
  with c have "content f = ''hello'' @ [CHR 0x0A] @ ''world'' @ [CHR 0x0A]"
    by (simp add: demo_SaveAs_lines) (simp add: demo_buffer_def)
  with f show ?thesis by (simp add: ReplaceHome_def)
qed

text \<open>
  C2. On a scratch buffer each of Save, SaveAs, SaveWithSudo and SaveAsWithSudo returns the
  error "Cannot save scratch buffer" and leaves the buffer and the whole world, so every
  file, as they were.
\<close>

theorem scratch_buffer_not_saved:
  assumes "Scratch (Type b)"
  shows "Save env (b, w) = ((b, w), Returned (Some (ErrorsNew ''Cannot save scratch buffer''))) \<and>
         SaveAs env filename (b, w) =
           ((b, w), Returned (Some (ErrorsNew ''Cannot save scratch buffer''))) \<and>
         SaveWithSudo env (b, w) =
           ((b, w), Returned (Some (ErrorsNew ''Cannot save scratch buffer''))) \<and>
         SaveAsWithSudo env filename (b, w) =
           ((b, w), Returned (Some (ErrorsNew ''Cannot save scratch buffer'')))"
  using assms by (simp add: Save_def SaveAs_def SaveWithSudo_def SaveAsWithSudo_def)

theorem scratch_buffer_not_saved_witness:
  "Scratch (Type (demo_buffer\<lparr>Type := \<lparr>Scratch = True\<rparr>\<rparr>)) \<and>
   files (snd (fst (SaveAs demo_env ''a.txt''
      (demo_buffer\<lparr>Type := \<lparr>Scratch = True\<rparr>\<rparr>, demo_world)))) ''a.txt'' = None \<and>
   snd (SaveAsWithSudo demo_env ''a.txt'' (demo_buffer\<lparr>Type := \<lparr>Scratch = True\<rparr>\<rparr>, demo_world)) =
     Returned (Some (ErrorsNew ''Cannot save scratch buffer''))"
proof -
  have s: "Scratch (Type (demo_buffer\<lparr>Type := \<lparr>Scratch = True\<rparr>\<rparr>))" by simp
  show ?thesis
    using s scratch_buffer_not_saved[OF s, of demo_env demo_world "''a.txt''"]
    by (simp add: demo_world_def)
qed

lemma SaveAs_body_fields:
  "lines (fst (fst (SaveAs_body env filename (b, w)))) = lines b"
  "Endings (fst (fst (SaveAs_body env filename (b, w)))) = Endings b"
  "Type (fst (fst (SaveAs_body env filename (b, w)))) = Type b"
  "k \<noteq> ''fastdirty'' \<Longrightarrow> Settings (fst (fst (SaveAs_body env filename (b, w)))) k = Settings b k"
  by (auto simp: SaveAs_body_def SaveAs_finish_def calcHash_def Let_def
      split: prod.splits option.splits sum.splits)

text \<open>The lines of the buffer after SaveAs, whatever its outcome.\<close>

lemma SaveAs_fields:
  assumes "\<not> Scratch (Type b)"
    and "assertBool (Settings b ''rmtrailingws'') = Some rm"
    and "assertBool (Settings b ''eofnewline'') = Some nl"
  shows "lines (fst (fst (SaveAs env filename (b, w)))) = normalized rm nl (lines b)"
    and "Endings (fst (fst (SaveAs env filename (b, w)))) = Endings b"
    and "Type (fst (fst (SaveAs env filename (b, w)))) = Type b"
    and "k \<noteq> ''fastdirty'' \<Longrightarrow> Settings (fst (fst (SaveAs env filename (b, w)))) k = Settings b k"
    and "\<exists>out. snd (SaveAs env filename (b, w)) = out \<and>
               out = snd (SaveAs_body env filename (fst (SaveAs_normalize env b), w))"
  using assms(1) SaveAs_normalize_ok[OF assms(2,3), of env]
    SaveAs_body_fields[where env = env and filename = filename and w = w
      and b = "fst (SaveAs_normalize env b)"]
  by (auto simp: SaveAs_def SaveAs_deferred_eq split: prod.splits)

text \<open>
  C5. After a SaveAs without error on a buffer whose fastdirty setting is off: when the
  serialized size, the number of bytes handed to the encoder, is at most 50000, the hash
  of the content is computed and stored and the settings stay as they were; when it is
  larger, the stored hash stays as it was and fastdirty is switched on.
\<close>

theorem SaveAs_large_file_threshold:
  assumes "SaveAs env filename (b, w) = ((b', w'), Returned None)"
    and "Settings b ''fastdirty'' = Some (VBool False)"
  shows "(length (joinLines (eolOf (Endings b')) (lines b')) \<le> 50000 \<longrightarrow>
            origHash b' = md5 env (lines b') \<and> Settings b' = Settings b) \<and>
         (50000 < length (joinLines (eolOf (Endings b')) (lines b')) \<longrightarrow>
            origHash b' = origHash b \<and>
            Settings b' = (Settings b)(''fastdirty'' \<mapsto> VBool True))"
proof -
  from assms(1) obtain bn w1 name enc n w2 bf where
    nz: "SaveAs_normalize env b = (bn, None)"
    and ow: "overwriteFile env (fst (ReplaceHome env filename)) enc (SaveAs_write env bn) (0, w1) = ((n, w2), None)"
    and fin: "SaveAs_finish env filename n bn = (bf, Returned None)"
    and b': "b' = bf\<lparr>ModTime := fst (GetModTime filename w2)\<rparr>"
    by (rule SaveAs_success)
  from nz SaveAs_normalize_panic[of env b] obtain rm nl where
    rm: "assertBool (Settings b ''rmtrailingws'') = Some rm"
    and nl: "assertBool (Settings b ''eofnewline'') = Some nl" by auto
  from SaveAs_normalize_ok[OF rm nl, of env] nz have
    bn: "Settings bn = Settings b" "origHash bn = origHash b" by auto
  from overwriteFile_SaveAs_ok[OF ow] have n: "n = length (joinLines (eolOf (Endings bn)) (lines bn))"
    by (cases "lines bn = []") auto
  from fin b' have same: "lines b' = lines bn" "Endings b' = Endings bn"
    using SaveAs_finish_fields[of env filename n bn] by auto
  from fin b' bn assms(2) n same show ?thesis
    by (auto simp: SaveAs_finish_def assertBool_def calcHash_def LargeFileThreshold_def Let_def)
qed

lemma demo_big_SaveAs:
  "snd (SaveAs demo_env ''a.txt'' (demo_big n, demo_world)) = Returned None"
  "lines (fst (fst (SaveAs demo_env ''a.txt'' (demo_big n, demo_world)))) =
     [\<lparr>data = replicate n (CHR ''a'')\<rparr>]"
  "Endings (fst (fst (SaveAs demo_env ''a.txt'' (demo_big n, demo_world)))) = FFUnix"
  by (simp_all add: demo_big_def demo_defs save_defs)

theorem SaveAs_large_file_threshold_witness:
  "origHash (fst (fst (SaveAs demo_env ''a.txt'' (demo_big 50000, demo_world)))) =
     md5 demo_env [\<lparr>data = replicate 50000 (CHR ''a'')\<rparr>] \<and>
   Settings (fst (fst (SaveAs demo_env ''a.txt'' (demo_big 50000, demo_world)))) ''fastdirty'' =
     Some (VBool False) \<and>
   origHash (fst (fst (SaveAs demo_env ''a.txt'' (demo_big 50001, demo_world)))) = [] \<and>
   Settings (fst (fst (SaveAs demo_env ''a.txt'' (demo_big 50001, demo_world)))) ''fastdirty'' =
     Some (VBool True)"
proof -
  have fd: "Settings (demo_big n) ''fastdirty'' = Some (VBool False)" for n
    by (simp add: demo_big_def demo_buffer_def)
  have oh: "origHash (demo_big n) = []" for n
    by (simp add: demo_big_def demo_buffer_def)
  have ok: "SaveAs demo_env ''a.txt'' (demo_big n, demo_world) =
              ((fst (fst (SaveAs demo_env ''a.txt'' (demo_big n, demo_world))),
                snd (fst (SaveAs demo_env ''a.txt'' (demo_big n, demo_world)))), Returned None)" for n
    using demo_big_SaveAs(1)[of n] by (simp add: prod_eq_iff)
  show ?thesis
    using SaveAs_large_file_threshold[OF ok[of 50000] fd]
          SaveAs_large_file_threshold[OF ok[of 50001] fd]
    by (simp add: demo_big_SaveAs eolOf_def fd oh)
qed

text \<open>
  C6. When the file cannot be opened, overwriteFile returns the error of the open and
  the callback does not run. After a successful open the callback runs once and the file
  is closed after it, whether the callback failed or not: the descriptor is no longer
  open. The error of the callback is the result also when the close fails as well; the
  error of the close is the result only when the callback gave none.
\<close>

theorem overwriteFile_closes_and_reports_first_error:
  "(case os_OpenFile env name w of
      (w1, Inl e) \<Rightarrow> overwriteFile env name enc fn (s, w) = ((s, w1), Some e) \<and> w1 = w
    | (w1, Inr fd) \<Rightarrow>
        (case fn \<lparr>wfd = fd, wenc = enc\<rparr> (s, w1) of
           ((s2, w2), err) \<Rightarrow>
             fst (overwriteFile env name enc fn (s, w)) = (s2, fst (file_Close env fd w2)) \<and>
             handles (snd (fst (overwriteFile env name enc fn (s, w)))) fd = None \<and>
             snd (overwriteFile env name enc fn (s, w)) =
               (case err of Some e \<Rightarrow> Some e | None \<Rightarrow> snd (file_Close env fd w2))))"
proof (cases "os_OpenFile env name w")
  case (Pair w1 r)
  show ?thesis
  proof (cases r)
    case (Inl e)
    with Pair show ?thesis
      by (auto simp: overwriteFile_def os_OpenFile_def split: option.splits)
  next
    case (Inr fd)
    obtain s2 w2 err where fn: "fn \<lparr>wfd = fd, wenc = enc\<rparr> (s, w1) = ((s2, w2), err)"
      by (cases "fn \<lparr>wfd = fd, wenc = enc\<rparr> (s, w1)") auto
    obtain w3 e where cl: "file_Close env fd w2 = (w3, e)"
      by (cases "file_Close env fd w2") auto
    then have "handles w3 fd = None"
      by (auto simp: file_Close_def split: option.splits)
    with Pair Inr fn cl show ?thesis
      by (cases err; cases e) (simp_all add: overwriteFile_def)
  qed
qed

text \<open>
  C9, as the code has it. On a buffer that is not scratch, with a helper command set,
  SaveAsWithSudo registers a new channel for the interrupt signal before it starts the
  helper, and no event removes the registration: the channel still receives the signal
  when SaveAsWithSudo has returned, whether the helper succeeded or failed.
\<close>

theorem SaveAsWithSudo_interception_stays:
  assumes "\<not> Scratch (Type b)"
    and "GlobalSettings env ''sucmd'' = Some (VString sucmd)"
    and "SaveAsWithSudo env filename (b, w) = ((b', w'), out)"
  shows "trace w' =
           CmdWait # CmdStart sucmd [''tee'', filename] (Bytes b) # SigNotify (chans w) # trace w \<and>
         chans w \<in> set (listening (trace w'))"
proof -
  have bytes_eq: "Bytes ((UpdateRules env b)\<lparr>Path := filename, AbsPath := fst (filepath_Abs env filename)\<rparr>) = Bytes b"
    by (simp add: Bytes_def UpdateRules_def)
  have tr: "Serialize env x y = (w3, e) \<Longrightarrow> trace w3 = trace y" for x y w3 e
    by (auto simp: Serialize_def split: option.splits)
  have "trace w' =
           CmdWait # CmdStart sucmd [''tee'', filename] (Bytes b) # SigNotify (chans w) # trace w"
    using assms bytes_eq
    by (auto simp: SaveAsWithSudo_def assertString_def Let_def split: prod.splits option.splits
        dest!: tr)
  then show ?thesis by simp
qed

theorem SaveAsWithSudo_interception_stays_witness:
  "trace (snd (fst (SaveAsWithSudo demo_env ''/etc/motd'' (demo_buffer, demo_world)))) =
     [CmdWait, CmdStart ''sudo'' [''tee'', ''/etc/motd''] (Bytes demo_buffer), SigNotify 0]"
proof -
  let ?r = "SaveAsWithSudo demo_env ''/etc/motd'' (demo_buffer, demo_world)"
  have a: "\<not> Scratch (Type demo_buffer)" by (simp add: demo_buffer_def)
  have b: "GlobalSettings demo_env ''sucmd'' = Some (VString ''sudo'')"
    by (simp add: demo_env_def)
  have d: "?r = ((fst (fst ?r), snd (fst ?r)), snd ?r)" by simp
  have e: "chans demo_world = 0" "trace demo_world = []" by (simp_all add: demo_world_def)
  from SaveAsWithSudo_interception_stays[OF a b d] have
    "trace (snd (fst ?r)) =
       CmdWait # CmdStart ''sudo'' [''tee'', ''/etc/motd''] (Bytes demo_buffer) #
       SigNotify (chans demo_world) # trace demo_world"
    by simp
  with e show ?thesis by simp
qed

theorem SaveAsWithSudo_interception_counterexample:
  "snd (SaveAsWithSudo demo_env ''/etc/motd'' (demo_buffer, demo_world)) = Returned None \<and>
   listening (trace demo_world) = [] \<and>
   listening (trace (snd (fst (SaveAsWithSudo demo_env ''/etc/motd'' (demo_buffer, demo_world))))) = [0]"
  by (simp add: SaveAsWithSudo_def cmd_Start_def cmd_Wait_def assertString_def Let_def
      UpdateRules_def Serialize_def demo_env_def demo_world_def demo_buffer_def
      split: prod.splits)

lemma Trim_Nil [simp]: "TrimRightFunc_IsSpace [] = []"
  by (simp add: TrimRightFunc_IsSpace_def)

lemma endsInNewline_snoc_empty [simp]: "endsInNewline (ls @ [\<lparr>data = []\<rparr>])"
  by (simp add: endsInNewline_def)

lemma trimLine_comp [simp]: "trimLine \<circ> trimLine = trimLine"
  by (rule ext) simp

lemma trimLine_empty [simp]: "trimLine \<lparr>data = []\<rparr> = \<lparr>data = []\<rparr>"
  by (simp add: trimLine_def)

lemma normalized_idem: "normalized rm nl (normalized rm nl ls) = normalized rm nl ls"
  by (simp add: normalized_def Let_def)

lemma joinLines_snoc_empty:
  "ls \<noteq> [] \<Longrightarrow> joinLines e (ls @ [\<lparr>data = []\<rparr>]) = joinLines e ls @ e"
  by (induction e ls rule: joinLines.induct) auto

text \<open>
  C8, as the code has it. On a buffer that is not scratch, with eofnewline on and a text
  that, once trimmed if rmtrailingws asks for it, does not end in a newline, SaveAs
  appends one empty line to the buffer, that is one line break to its text, and nothing
  more. A second SaveAs on the buffer and world that the first one left changes no line;
  when both return without error, the file holds the same content after the second as
  after the first.
\<close>

theorem SaveAs_eofnewline_once:
  assumes "\<not> Scratch (Type b)"
    and "Settings b ''eofnewline'' = Some (VBool True)"
    and "assertBool (Settings b ''rmtrailingws'') = Some rm"
    and "\<not> endsInNewline (if rm then map trimLine (lines b) else lines b)"
    and "SaveAs env filename (b, w) = ((b1, w1), out1)"
    and "SaveAs env filename (b1, w1) = ((b2, w2), out2)"
  shows "lines b1 = (if rm then map trimLine (lines b) else lines b) @ [\<lparr>data = []\<rparr>] \<and>
         joinLines [CHR 0x0A] (lines b1) =
           joinLines [CHR 0x0A] (if rm then map trimLine (lines b) else lines b) @ [CHR 0x0A] \<and>
         lines b2 = lines b1 \<and>
         (out1 = Returned None \<and> out2 = Returned None \<longrightarrow>
            (\<exists>f1 f2. files w1 (fst (ReplaceHome env filename)) = Some f1 \<and>
                     files w2 (fst (ReplaceHome env filename)) = Some f2 \<and>
                     content f2 = content f1))"
proof -
  let ?ls = "if rm then map trimLine (lines b) else lines b"
  have nl: "assertBool (Settings b ''eofnewline'') = Some True"
    using assms(2) by (simp add: assertBool_def)
  note f1 = SaveAs_fields[OF assms(1,3) nl, where env = env and filename = filename and w = w]
  have l1: "lines b1 = normalized rm True (lines b)" using f1(1) assms(5) by simp
  have ne: "?ls \<noteq> []" using assms(4) by (auto simp: endsInNewline_def)
  have l1': "lines b1 = ?ls @ [\<lparr>data = []\<rparr>]"
    using l1 assms(4) by (simp add: normalized_def Let_def)
  have t1: "\<not> Scratch (Type b1)" using f1(3) assms(1,5) by simp
  have s1: "Settings b1 ''rmtrailingws'' = Settings b ''rmtrailingws''"
    "Settings b1 ''eofnewline'' = Settings b ''eofnewline''"
    "Settings b1 ''encoding'' = Settings b ''encoding''"
    using f1(4)[of "''rmtrailingws''"] f1(4)[of "''eofnewline''"] f1(4)[of "''encoding''"] assms(5)
    by simp_all
  have rm1: "assertBool (Settings b1 ''rmtrailingws'') = Some rm" using s1 assms(3) by simp
  have nl1: "assertBool (Settings b1 ''eofnewline'') = Some True" using s1 nl by simp
  note f2 = SaveAs_fields[OF t1 rm1 nl1, where env = env and filename = filename and w = w1]
  have l2: "lines b2 = lines b1"
    using f2(1) assms(6) l1 by (simp add: normalized_idem)
  have e2: "Endings b2 = Endings b1" using f2(2) assms(6) by simp
  have cont: "\<exists>f1 f2. files w1 (fst (ReplaceHome env filename)) = Some f1 \<and>
                     files w2 (fst (ReplaceHome env filename)) = Some f2 \<and>
                     content f2 = content f1"
    if ok: "out1 = Returned None" "out2 = Returned None"
  proof -
    from SaveAs_content[OF assms(5)[unfolded ok]] obtain name enc t where
      a: "Settings b ''encoding'' = Some (VString name)" "htmlindex_Get env name = Inr enc"
         "files w1 (fst (ReplaceHome env filename)) =
             Some \<lparr>content = (if lines b1 = [] then []
                              else enc (joinLines (eolOf (Endings b1)) (lines b1))),
                   mtime = t\<rparr>"
      by blast
    from SaveAs_content[OF assms(6)[unfolded ok]] obtain name' enc' t' where
      b: "Settings b1 ''encoding'' = Some (VString name')" "htmlindex_Get env name' = Inr enc'"
         "files w2 (fst (ReplaceHome env filename)) =
             Some \<lparr>content = (if lines b2 = [] then []
                              else enc' (joinLines (eolOf (Endings b2)) (lines b2))),
                   mtime = t'\<rparr>"
      by blast
    from a(1) b(1) s1(3) have "name' = name" by simp
    with a(2) b(2) have "enc' = enc" by simp
    with a(3) b(3) l2 e2 show ?thesis by simp
  qed
  show ?thesis
    using l1' l2 cont ne by (simp add: joinLines_snoc_empty)
qed

lemma demo_trimmed:
  "map trimLine (lines demo_buffer) = [\<lparr>data = ''hello''\<rparr>, \<lparr>data = ''world''\<rparr>]"
  by (simp add: trimLine_def demo_buffer_def TrimRightFunc_IsSpace_def IsSpace_def runes_Cons
      DecodeRune_size_def tail_ranges_def inRange_def)

lemma demo_not_endsInNewline:
  "\<not> endsInNewline [\<lparr>data = ''hello''\<rparr>, \<lparr>data = ''world''\<rparr>]"
  "\<not> endsInNewline (lines demo_buffer)"
  by (simp_all add: endsInNewline_def demo_buffer_def runes_Cons DecodeRune_size_def
      tail_ranges_def inRange_def)

lemma demo_SaveAs_again:
  "snd (SaveAs demo_env ''a.txt'' (fst (SaveAs demo_env ''a.txt'' (demo_buffer, demo_world)))) =
     Returned None"
  by (simp add: demo_defs save_defs)

theorem SaveAs_eofnewline_once_witness:
  "lines (fst (fst (SaveAs demo_env ''a.txt'' (demo_buffer, demo_world)))) =
     [\<lparr>data = ''hello''\<rparr>, \<lparr>data = ''world''\<rparr>, \<lparr>data = []\<rparr>] \<and>
   lines (fst (fst (SaveAs demo_env ''a.txt''
     (fst (SaveAs demo_env ''a.txt'' (demo_buffer, demo_world)))))) =
     [\<lparr>data = ''hello''\<rparr>, \<lparr>data = ''world''\<rparr>, \<lparr>data = []\<rparr>] \<and>
   (\<exists>f1 f2.
      files (snd (fst (SaveAs demo_env ''a.txt'' (demo_buffer, demo_world)))) ''a.txt'' = Some f1 \<and>
      files (snd (fst (SaveAs demo_env ''a.txt''
        (fst (SaveAs demo_env ''a.txt'' (demo_buffer, demo_world)))))) ''a.txt'' = Some f2 \<and>
      content f2 = content f1)"
proof -
  let ?r1 = "SaveAs demo_env ''a.txt'' (demo_buffer, demo_world)"
  let ?r2 = "SaveAs demo_env ''a.txt'' (fst ?r1)"
  have a: "\<not> Scratch (Type demo_buffer)" by (simp add: demo_buffer_def)
  have b: "Settings demo_buffer ''eofnewline'' = Some (VBool True)" by (simp add: demo_buffer_def)
  have c: "assertBool (Settings demo_buffer ''rmtrailingws'') = Some True"
    by (simp add: demo_buffer_def assertBool_def)
  have d: "\<not> endsInNewline (if True then map trimLine (lines demo_buffer) else lines demo_buffer)"
    by (simp add: demo_trimmed demo_not_endsInNewline)
  have e: "?r1 = ((fst (fst ?r1), snd (fst ?r1)), Returned None)"
    using demo_SaveAs_outcome by (simp add: prod_eq_iff)
  have f: "SaveAs demo_env ''a.txt'' (fst (fst ?r1), snd (fst ?r1)) =
             ((fst (fst ?r2), snd (fst ?r2)), Returned None)"
    using demo_SaveAs_again by (simp add: prod_eq_iff)
  have g: "fst (ReplaceHome demo_env ''a.txt'') = ''a.txt''" by (simp add: ReplaceHome_def)
  from SaveAs_eofnewline_once[OF a b c d e f] show ?thesis
    by (simp add: demo_trimmed g)
qed

text \<open>
  C7, as the code has it. On a buffer that is not scratch, when waiting on the helper
  gives an error, SaveAsWithSudo returns that error: the exit error of a helper that was
  started, and the error "exec: not started" for a helper that could not be spawned, whose
  spawn error is discarded. The buffer then has the new path and absolute path, and apart
  from them only the syntax rules derived anew: the modified flag, the content hash and
  the modification time are as before. The command was given the path as its argument.
\<close>

theorem SaveAsWithSudo_failure_keeps_path:
  assumes "\<not> Scratch (Type b)"
    and "GlobalSettings env ''sucmd'' = Some (VString sucmd)"
    and "snd (cmd_Wait env (cmd_Start env sucmd [''tee'', filename]) sucmd [''tee'', filename]
               (Bytes b) (files w)) = Some err"
    and "SaveAsWithSudo env filename (b, w) = ((b', w'), out)"
  shows "out = Returned (Some err) \<and>
         (case cmd_Start env sucmd [''tee'', filename] of
            Some spawnErr \<Rightarrow> err = ErrorsNew ''exec: not started''
          | None \<Rightarrow> snd (helper env sucmd [''tee'', filename] (Bytes b) (files w)) = Some err) \<and>
         b' = (UpdateRules env b)\<lparr>Path := filename, AbsPath := fst (filepath_Abs env filename)\<rparr> \<and>
         Path b' = filename \<and> AbsPath b' = fst (filepath_Abs env filename) \<and>
         isModified b' = isModified b \<and> origHash b' = origHash b \<and> ModTime b' = ModTime b \<and>
         serialized w' = serialized w \<and>
         trace w' = CmdWait # CmdStart sucmd [''tee'', filename] (Bytes b) # SigNotify (chans w) # trace w"
proof -
  have bytes_eq: "Bytes ((UpdateRules env b)\<lparr>Path := filename, AbsPath := fst (filepath_Abs env filename)\<rparr>) = Bytes b"
    by (simp add: Bytes_def UpdateRules_def)
  have src: "(case cmd_Start env sucmd [''tee'', filename] of
            Some spawnErr \<Rightarrow> err = ErrorsNew ''exec: not started''
          | None \<Rightarrow> snd (helper env sucmd [''tee'', filename] (Bytes b) (files w)) = Some err)"
    using assms(3) by (auto simp: cmd_Wait_def split: option.splits)
  show ?thesis
    using assms bytes_eq src
    by (auto simp: SaveAsWithSudo_def assertString_def Let_def UpdateRules_def split: prod.splits)
qed

theorem SaveAsWithSudo_failure_keeps_path_witness:
  "snd (SaveAsWithSudo failing_helper_env ''/etc/motd'' (demo_buffer, demo_world)) =
     Returned (Some (SysError ''exit status 1'')) \<and>
   Path (fst (fst (SaveAsWithSudo failing_helper_env ''/etc/motd'' (demo_buffer, demo_world)))) =
     ''/etc/motd'' \<and>
   isModified (fst (fst (SaveAsWithSudo failing_helper_env ''/etc/motd'' (demo_buffer, demo_world)))) \<and>
   snd (SaveAsWithSudo spawn_fail_env ''/etc/motd'' (demo_buffer, demo_world)) =
     Returned (Some (ErrorsNew ''exec: not started'')) \<and>
   Path (fst (fst (SaveAsWithSudo spawn_fail_env ''/etc/motd'' (demo_buffer, demo_world)))) =
     ''/etc/motd'' \<and>
   isModified (fst (fst (SaveAsWithSudo spawn_fail_env ''/etc/motd'' (demo_buffer, demo_world))))"
proof -
  let ?r = "SaveAsWithSudo failing_helper_env ''/etc/motd'' (demo_buffer, demo_world)"
  let ?q = "SaveAsWithSudo spawn_fail_env ''/etc/motd'' (demo_buffer, demo_world)"
  have a: "\<not> Scratch (Type demo_buffer)" by (simp add: demo_buffer_def)
  have b: "GlobalSettings failing_helper_env ''sucmd'' = Some (VString ''sudo'')"
    "GlobalSettings spawn_fail_env ''sucmd'' = Some (VString ''sudo'')"
    by (simp_all add: failing_helper_env_def spawn_fail_env_def demo_env_def)
  have c: "snd (cmd_Wait failing_helper_env
                  (cmd_Start failing_helper_env ''sudo'' [''tee'', ''/etc/motd''])
                  ''sudo'' [''tee'', ''/etc/motd''] (Bytes demo_buffer) (files demo_world)) =
             Some (SysError ''exit status 1'')"
    by (simp add: cmd_Wait_def cmd_Start_def failing_helper_env_def demo_env_def)
  have c': "snd (cmd_Wait spawn_fail_env
                  (cmd_Start spawn_fail_env ''sudo'' [''tee'', ''/etc/motd''])
                  ''sudo'' [''tee'', ''/etc/motd''] (Bytes demo_buffer) (files demo_world)) =
             Some (ErrorsNew ''exec: not started'')"
    by (simp add: cmd_Wait_def cmd_Start_def spawn_fail_env_def demo_env_def)
  have d: "?r = ((fst (fst ?r), snd (fst ?r)), snd ?r)" "?q = ((fst (fst ?q), snd (fst ?q)), snd ?q)"
    by simp_all
  have e: "isModified demo_buffer" by (simp add: demo_buffer_def)
  note t = SaveAsWithSudo_failure_keeps_path[OF a b(1) c d(1)]
  note u = SaveAsWithSudo_failure_keeps_path[OF a b(2) c' d(2)]
  from t have "snd ?r = Returned (Some (SysError ''exit status 1''))" by blast
  moreover from t have "Path (fst (fst ?r)) = ''/etc/motd''" by blast
  moreover from t have "isModified (fst (fst ?r)) = isModified demo_buffer" by blast
  moreover from u have "snd ?q = Returned (Some (ErrorsNew ''exec: not started''))" by blast
  moreover from u have "Path (fst (fst ?q)) = ''/etc/motd''" by blast
  moreover from u have "isModified (fst (fst ?q)) = isModified demo_buffer" by blast
  ultimately show ?thesis using e by simp
qed

text \<open>
  C7 as stated fails when the helper cannot be spawned: the error of the spawn is not
  the error that SaveAsWithSudo returns.
\<close>

theorem SaveAsWithSudo_spawn_error_counterexample:
  "cmd_Start spawn_fail_env ''sudo'' [''tee'', ''/etc/motd''] =
     Some (SysError ''executable file not found in $PATH'') \<and>
   snd (SaveAsWithSudo spawn_fail_env ''/etc/motd'' (demo_buffer, demo_world)) =
     Returned (Some (ErrorsNew ''exec: not started'')) \<and>
   snd (SaveAsWithSudo spawn_fail_env ''/etc/motd'' (demo_buffer, demo_world)) \<noteq>
     Returned (Some (SysError ''executable file not found in $PATH''))"
  by (simp add: SaveAsWithSudo_def cmd_Start_def cmd_Wait_def assertString_def Let_def
      UpdateRules_def spawn_fail_env_def demo_env_def demo_world_def demo_buffer_def
      split: prod.splits)

text \<open>
  C1 as stated fails for the lines of the buffer that SaveAs is given: with eofnewline
  on, a buffer of the single line "hello" is written as "hello" and a line terminator.
\<close>

theorem SaveAs_serialization_counterexample:
  "lines one_line_buffer = [\<lparr>data = ''hello''\<rparr>] \<and>
   snd (SaveAs demo_env ''a.txt'' (one_line_buffer, demo_world)) = Returned None \<and>
   map_option content
     (files (snd (fst (SaveAs demo_env ''a.txt'' (one_line_buffer, demo_world)))) ''a.txt'') =
     Some (''hello'' @ [CHR 0x0A])"
  by (simp add: one_line_buffer_def demo_defs save_defs)





text \<open>
  C4, at a destination with the home-directory shorthand: SaveAs writes the file in the
  home directory and returns nil, but the path of the buffer is the destination as given,
  the absolute path is the destination taken relative to the working directory, no file
  has either name, and the modification time is not the timestamp of the written file.
\<close>

theorem SaveAs_tilde_path_fields:
  "snd (SaveAs demo_env ''~/a.txt'' (demo_buffer, demo_world)) = Returned None \<and>
   files (snd (fst (SaveAs demo_env ''~/a.txt'' (demo_buffer, demo_world)))) ''/home/u/a.txt'' =
     Some \<lparr>content = ''hello'' @ [CHR 0x0A] @ ''world'' @ [CHR 0x0A], mtime = 105\<rparr> \<and>
   Path (fst (fst (SaveAs demo_env ''~/a.txt'' (demo_buffer, demo_world)))) = ''~/a.txt'' \<and>
   AbsPath (fst (fst (SaveAs demo_env ''~/a.txt'' (demo_buffer, demo_world)))) = ''/cwd/~/a.txt'' \<and>
   files (snd (fst (SaveAs demo_env ''~/a.txt'' (demo_buffer, demo_world)))) ''~/a.txt'' = None \<and>
   files (snd (fst (SaveAs demo_env ''~/a.txt'' (demo_buffer, demo_world)))) ''/cwd/~/a.txt'' = None \<and>
   ModTime (fst (fst (SaveAs demo_env ''~/a.txt'' (demo_buffer, demo_world)))) = 106 \<and>
   \<not> isModified (fst (fst (SaveAs demo_env ''~/a.txt'' (demo_buffer, demo_world))))"
  by (simp add: demo_defs save_defs)

text \<open>
  When the destination has no home-directory shorthand to expand, a SaveAs without error
  leaves the buffer unmodified, with the destination as its path, the absolute form of
  the destination as its absolute path and the timestamp of the written file as its
  modification time.
\<close>

lemma SaveAs_success_state:
  assumes "SaveAs env filename (b, w) = ((b', w'), Returned None)"
    and "fst (ReplaceHome env filename) = filename"
  shows "\<not> isModified b' \<and> Path b' = filename \<and>
         AbsPath b' = fst (filepath_Abs env filename) \<and>
         (\<exists>f. files w' filename = Some f \<and> ModTime b' = mtime f)"
proof -
  from assms(1) obtain bn w1 name enc n w2 bf where
    ow: "overwriteFile env (fst (ReplaceHome env filename)) enc (SaveAs_write env bn) (0, w1) = ((n, w2), None)"
    and fin: "SaveAs_finish env filename n bn = (bf, Returned None)"
    and b': "b' = bf\<lparr>ModTime := fst (GetModTime filename w2)\<rparr>"
    and w': "w' = fst (Serialize env b' w2)"
    by (rule SaveAs_success)
  from overwriteFile_SaveAs_ok[OF ow] assms(2) obtain c t where
    f: "files w2 filename = Some \<lparr>content = c, mtime = t\<rparr>" by auto
  then have "fst (GetModTime filename w2) = t" by (simp add: GetModTime_def)
  moreover from fin have "\<not> isModified bf \<and> Path bf = filename \<and>
      AbsPath bf = fst (filepath_Abs env filename)"
    by (auto simp: SaveAs_finish_def Let_def split: option.splits)
  ultimately show ?thesis using b' w' f by simp
qed

text \<open>
  C8 as stated fails twice. With rmtrailingws on, a buffer whose last line is blanks ends
  in a space, not in a newline, and SaveAs appends nothing to it: it has as many lines
  after as before, the last one emptied. And on a scratch buffer SaveAs changes no line.
\<close>

theorem SaveAs_eofnewline_counterexample:
  "Settings blank_last_line_buffer ''eofnewline'' = Some (VBool True) \<and>
   lines blank_last_line_buffer = [\<lparr>data = ''hello''\<rparr>, \<lparr>data = ''  ''\<rparr>] \<and>
   \<not> endsInNewline (lines blank_last_line_buffer) \<and>
   snd (SaveAs demo_env ''a.txt'' (blank_last_line_buffer, demo_world)) = Returned None \<and>
   lines (fst (fst (SaveAs demo_env ''a.txt'' (blank_last_line_buffer, demo_world)))) =
     [\<lparr>data = ''hello''\<rparr>, \<lparr>data = []\<rparr>] \<and>
   Settings scratch_buffer ''eofnewline'' = Some (VBool True) \<and>
   \<not> endsInNewline (lines scratch_buffer) \<and>
   lines scratch_buffer = [\<lparr>data = ''hello  ''\<rparr>, \<lparr>data = ''world''\<rparr>] \<and>
   lines (fst (fst (SaveAs demo_env ''a.txt'' (scratch_buffer, demo_world)))) =
     [\<lparr>data = ''hello  ''\<rparr>, \<lparr>data = ''world''\<rparr>]"
  by (simp add: blank_last_line_buffer_def scratch_buffer_def endsInNewline_def demo_defs
      save_defs)

text \<open>
  C10. The text is normalised before the parent directories, the encoding and the file
  are touched, and nothing undoes it: when SaveAs returns an error, the lines of the
  buffer are the normalised ones. They differ from the lines the buffer had before the
  call when the trimming changes a line or when a newline is added at the end.
\<close>

theorem SaveAs_error_keeps_normalized_text:
  assumes "\<not> Scratch (Type b)"
    and "assertBool (Settings b ''rmtrailingws'') = Some rm"
    and "assertBool (Settings b ''eofnewline'') = Some nl"
    and "SaveAs env filename (b, w) = ((b', w'), Returned (Some e))"
  shows "lines b' = normalized rm nl (lines b) \<and>
         ((rm \<and> map trimLine (lines b) \<noteq> lines b) \<or> (nl \<and> \<not> endsInNewline (lines b))
            \<longrightarrow> lines b' \<noteq> lines b)"
proof -
  let ?ls1 = "if rm then map trimLine (lines b) else lines b"
  have l: "lines b' = normalized rm nl (lines b)"
    using SaveAs_fields(1)[OF assms(1,2,3), where env = env and filename = filename and w = w]
      assms(4) by simp
  have "normalized rm nl (lines b) \<noteq> lines b"
    if h: "(rm \<and> map trimLine (lines b) \<noteq> lines b) \<or> (nl \<and> \<not> endsInNewline (lines b))"
  proof (cases "nl \<and> \<not> endsInNewline ?ls1")
    case True
    then have "length (normalized rm nl (lines b)) = Suc (length (lines b))"
      by (cases rm) (simp_all add: normalized_def Let_def)
    then show ?thesis by auto
  next
    case False
    then have n: "normalized rm nl (lines b) = ?ls1"
      by (cases rm) (simp_all add: normalized_def Let_def)
    from h show ?thesis
    proof
      assume "rm \<and> map trimLine (lines b) \<noteq> lines b"
      with n show ?thesis by simp
    next
      assume a: "nl \<and> \<not> endsInNewline (lines b)"
      with False have "endsInNewline ?ls1" by simp
      with a n show ?thesis by metis
    qed
  qed
  with l show ?thesis by simp
qed

lemma demo_errors:
  "snd (SaveAs demo_env ''a.txt'' (unknown_encoding_buffer, demo_world)) =
     Returned (Some (SysError ''htmlindex: invalid encoding name''))"
  "snd (SaveAs demo_env ''/nodir/a.txt'' (demo_buffer, demo_world)) =
     Returned (Some (ErrorsNew ''Parent dirs don't exist, enable 'mkparents' for auto creation''))"
  "snd (SaveAs disk_full_env ''a.txt'' (demo_buffer, demo_world)) =
     Returned (Some (SysError ''no space left on device''))"
  by (simp_all add: unknown_encoding_buffer_def disk_full_env_def demo_defs save_defs)

theorem SaveAs_error_keeps_normalized_text_witness:
  "lines (fst (fst (SaveAs demo_env ''a.txt'' (unknown_encoding_buffer, demo_world)))) =
     [\<lparr>data = ''hello''\<rparr>, \<lparr>data = ''world''\<rparr>, \<lparr>data = []\<rparr>] \<and>
   lines (fst (fst (SaveAs demo_env ''/nodir/a.txt'' (demo_buffer, demo_world)))) =
     [\<lparr>data = ''hello''\<rparr>, \<lparr>data = ''world''\<rparr>, \<lparr>data = []\<rparr>] \<and>
   lines (fst (fst (SaveAs disk_full_env ''a.txt'' (demo_buffer, demo_world)))) =
     [\<lparr>data = ''hello''\<rparr>, \<lparr>data = ''world''\<rparr>, \<lparr>data = []\<rparr>] \<and>
   lines unknown_encoding_buffer = [\<lparr>data = ''hello  ''\<rparr>, \<lparr>data = ''world''\<rparr>] \<and>
   lines demo_buffer = [\<lparr>data = ''hello  ''\<rparr>, \<lparr>data = ''world''\<rparr>] \<and>
   lines (fst (fst (SaveAs disk_full_env ''a.txt'' (demo_buffer, demo_world)))) \<noteq>
     lines demo_buffer"
proof -
  let ?u = unknown_encoding_buffer
  have a: "\<not> Scratch (Type demo_buffer)" "\<not> Scratch (Type ?u)"
    by (simp_all add: demo_buffer_def unknown_encoding_buffer_def)
  have b: "assertBool (Settings demo_buffer ''rmtrailingws'') = Some True"
    "assertBool (Settings ?u ''rmtrailingws'') = Some True"
    by (simp_all add: demo_buffer_def unknown_encoding_buffer_def assertBool_def)
  have c: "assertBool (Settings demo_buffer ''eofnewline'') = Some True"
    "assertBool (Settings ?u ''eofnewline'') = Some True"
    by (simp_all add: demo_buffer_def unknown_encoding_buffer_def assertBool_def)
  have l: "lines ?u = lines demo_buffer" by (simp add: unknown_encoding_buffer_def)
  have d: "(True \<and> map trimLine (lines demo_buffer) \<noteq> lines demo_buffer) \<or>
           (True \<and> \<not> endsInNewline (lines demo_buffer))"
    by (simp add: demo_not_endsInNewline)
  have n: "normalized True True (lines demo_buffer) =
             [\<lparr>data = ''hello''\<rparr>, \<lparr>data = ''world''\<rparr>, \<lparr>data = []\<rparr>]"
    by (simp add: normalized_def demo_trimmed demo_not_endsInNewline)
  have e1: "SaveAs demo_env ''a.txt'' (?u, demo_world) =
              ((fst (fst (SaveAs demo_env ''a.txt'' (?u, demo_world))),
                snd (fst (SaveAs demo_env ''a.txt'' (?u, demo_world)))),
               Returned (Some (SysError ''htmlindex: invalid encoding name'')))"
    using demo_errors(1) by (simp add: prod_eq_iff)
  have e2: "SaveAs demo_env ''/nodir/a.txt'' (demo_buffer, demo_world) =
              ((fst (fst (SaveAs demo_env ''/nodir/a.txt'' (demo_buffer, demo_world))),
                snd (fst (SaveAs demo_env ''/nodir/a.txt'' (demo_buffer, demo_world)))),
               Returned (Some (ErrorsNew
                 ''Parent dirs don't exist, enable 'mkparents' for auto creation'')))"
    using demo_errors(2) by (simp add: prod_eq_iff)
  have e3: "SaveAs disk_full_env ''a.txt'' (demo_buffer, demo_world) =
              ((fst (fst (SaveAs disk_full_env ''a.txt'' (demo_buffer, demo_world))),
                snd (fst (SaveAs disk_full_env ''a.txt'' (demo_buffer, demo_world)))),
               Returned (Some (SysError ''no space left on device'')))"
    using demo_errors(3) by (simp add: prod_eq_iff)
  note t1 = SaveAs_error_keeps_normalized_text[OF a(2) b(2) c(2) e1]
  note t2 = SaveAs_error_keeps_normalized_text[OF a(1) b(1) c(1) e2]
  note t3 = SaveAs_error_keeps_normalized_text[OF a(1) b(1) c(1) e3]
  from t3 d have ne: "lines (fst (fst (SaveAs disk_full_env ''a.txt'' (demo_buffer, demo_world)))) \<noteq>
     lines demo_buffer" by blast
  have lb: "lines demo_buffer = [\<lparr>data = ''hello  ''\<rparr>, \<lparr>data = ''world''\<rparr>]"
    by (simp add: demo_buffer_def)
  from t1 have "lines (fst (fst (SaveAs demo_env ''a.txt'' (?u, demo_world)))) =
      normalized True True (lines demo_buffer)" unfolding l by (rule conjunct1)
  moreover from t2 have "lines (fst (fst (SaveAs demo_env ''/nodir/a.txt'' (demo_buffer, demo_world)))) =
      normalized True True (lines demo_buffer)" by (rule conjunct1)
  moreover from t3 have "lines (fst (fst (SaveAs disk_full_env ''a.txt'' (demo_buffer, demo_world)))) =
      normalized True True (lines demo_buffer)" by (rule conjunct1)
  ultimately show ?thesis
    using ne l lb unfolding n by simp
qed

end
